theory Spec2Isabelle
  imports Complex_Main "HOL-Library.AList"
begin

section \<open>Pragmatic.js: reactive store, conditional attributes, bindings, router, validation\<close>

text \<open>
  The repository ships the library in two builds: \<^verbatim>\<open>pragmatic-standalone.js\<close> (a script
  include) and a UMD module. They share most of their code and differ in a few guards, so every
  operation below takes the build as its first argument and branches where the two sources
  differ.
\<close>

datatype build = Standalone | UMD

subsection \<open>JavaScript values\<close>

text \<open>
  Numbers carry the values a comparison can tell apart: NaN, the infinities and the finite
  ones. Functions and objects are references; two references are the same value when they are
  the same reference.
\<close>

datatype jsnumber = NaN | NegInf | Finite rat | PosInf

datatype jsval =
    JUndefined
  | JNull
  | JBool bool
  | JNum jsnumber
  | JStr string
  | JFun nat
  | JObj nat

datatype error =
    SyntaxError | TypeError | ReferenceError | InvalidCharacterError | InvalidStateError
  | QuotaExceededError | SecurityError | Thrown

text \<open>\<^verbatim>\<open>a === b\<close>: equal values of the same type, except that NaN differs from itself.\<close>

definition strict_equals :: "jsval \<Rightarrow> jsval \<Rightarrow> bool" where
  "strict_equals a b = (a = b \<and> a \<noteq> JNum NaN)"

text \<open>ToBoolean, as used by \<^verbatim>\<open>!x\<close>, \<^verbatim>\<open>!!x\<close>, \<^verbatim>\<open>x || y\<close> and \<^verbatim>\<open>Boolean(x)\<close>.\<close>

fun truthy :: "jsval \<Rightarrow> bool" where
  "truthy JUndefined = False"
| "truthy JNull = False"
| "truthy (JBool b) = b"
| "truthy (JNum NaN) = False"
| "truthy (JNum (Finite r)) = (r \<noteq> 0)"
| "truthy (JNum _) = True"
| "truthy (JStr s) = (s \<noteq> [])"
| "truthy (JFun _) = True"
| "truthy (JObj _) = True"

text \<open>The relational operators on numbers: every comparison with NaN is false.\<close>

fun num_lt :: "jsnumber \<Rightarrow> jsnumber \<Rightarrow> bool" where
  "num_lt NaN _ = False"
| "num_lt _ NaN = False"
| "num_lt _ NegInf = False"
| "num_lt NegInf _ = True"
| "num_lt PosInf _ = False"
| "num_lt (Finite a) PosInf = True"
| "num_lt (Finite a) (Finite b) = (a < b)"

fun num_eq :: "jsnumber \<Rightarrow> jsnumber \<Rightarrow> bool" where
  "num_eq NaN _ = False"
| "num_eq _ NaN = False"
| "num_eq a b = (a = b)"

definition num_gt :: "jsnumber \<Rightarrow> jsnumber \<Rightarrow> bool" where
  "num_gt a b = num_lt b a"

definition num_le :: "jsnumber \<Rightarrow> jsnumber \<Rightarrow> bool" where
  "num_le a b = (num_lt a b \<or> num_eq a b)"

definition num_ge :: "jsnumber \<Rightarrow> jsnumber \<Rightarrow> bool" where
  "num_ge a b = num_le b a"

subsection \<open>Elements\<close>

text \<open>
  An element of the document: its tag name in upper case, as \<^verbatim>\<open>tagName\<close> reports it, the
  properties and attributes the library reads or writes, for a \<^verbatim>\<open>select\<close> the values of its
  options, and the index of its parent element. The document is the list of its elements in
  document order; an element that a text assignment to an ancestor has removed stays in the
  list with \<open>attached\<close> false.
\<close>

record element =
  tagName :: string
  el_type :: string
  attributes :: "(string \<times> string) list"
  el_value :: string
  el_checked :: bool
  select_options :: "string list"
  textContent :: string
  classList :: "string list"
  style_display :: string
  validIf :: jsval
  showIf :: jsval
  parentIndex :: "nat option"
  attached :: bool
  onShowObserver :: bool

subsection \<open>The host\<close>

text \<open>
  What the browser provides and the repository only calls is a parameter of the model: the JSON
  codec, the quota of the storage, the conversions of values to strings and numbers, the
  regular-expression engine, the selector engine for the selectors the model does not read
  itself, the sanitisation of a value assigned to a form field, the address of the document
  after an entry of the session history, and the functions the page author attaches to
  elements.

  \<^item> \<open>JSON_parse\<close>, \<open>RegExp_test\<close> and \<open>querySelectorAll\<close> return \<open>None\<close> where the browser
    throws a SyntaxError, \<open>JSON_stringify\<close> where it throws a TypeError (a cyclic object);
  \<^item> \<open>storage_refuses items text\<close> says that \<^verbatim>\<open>setItem\<close> throws when the storage holds the
    items and is given the text (the quota is exceeded, or the storage is switched off);
  \<^item> \<open>sanitize tag type attributes text\<close> is the value an input or a text area of that
    type and with those attributes has after it is assigned the text, \<open>None\<close> where the
    assignment throws an InvalidStateError (a file input given a text that is not empty);
  \<^item> \<open>history_url location url\<close> is the path name and hash of the document after
    \<^verbatim>\<open>pushState\<close> or \<^verbatim>\<open>replaceState\<close> to the URL from that location, \<open>None\<close> where
    the browser throws;
  \<^item> \<open>call_fn\<close> returns \<open>None\<close> where the page's function throws;
  \<^item> \<open>page_reactive\<close> and \<open>page_updateDOM\<close> say that the page has defined
    \<^verbatim>\<open>window.reactive\<close> and \<^verbatim>\<open>window.updateDOM\<close>, as the standalone script defines them
    in its last lines, before that script runs.
\<close>

text \<open>
  A text that parses is read as a primitive value or as a plain object with its own
  properties, which is what the library itself stores.
\<close>

datatype parsed = PValue jsval | PObject "(string \<times> jsval) list"

record host =
  JSON_parse :: "string \<Rightarrow> parsed option"
  JSON_stringify :: "(string \<times> jsval) list \<Rightarrow> string option"
  storage_refuses :: "(string \<times> string) list \<Rightarrow> string \<Rightarrow> bool"
  ToString :: "jsval \<Rightarrow> string"
  StringToNumber :: "string \<Rightarrow> jsnumber"
  parseFloat :: "string \<Rightarrow> jsnumber"
  RegExp_test :: "string \<Rightarrow> jsval \<Rightarrow> bool option"
  querySelectorAll :: "string \<Rightarrow> element list \<Rightarrow> nat list option"
  sanitize :: "string \<Rightarrow> string \<Rightarrow> (string \<times> string) list \<Rightarrow> string \<Rightarrow> string option"
  history_url :: "string \<Rightarrow> string \<Rightarrow> string option"
  call_fn :: "nat \<Rightarrow> (string \<times> jsval) list \<Rightarrow> jsval option"
  page_reactive :: bool
  page_updateDOM :: bool
  displayStandalone :: bool
  serviceWorker :: bool
  enablePWA :: bool

text \<open>ToString is fixed by the language on the primitive values that are not numbers.\<close>

definition to_string :: "host \<Rightarrow> jsval \<Rightarrow> string" where
  "to_string h v =
     (case v of
        JStr s \<Rightarrow> s
      | JUndefined \<Rightarrow> ''undefined''
      | JNull \<Rightarrow> ''null''
      | JBool b \<Rightarrow> (if b then ''true'' else ''false'')
      | _ \<Rightarrow> ToString h v)"

text \<open>
  \<^verbatim>\<open>v == s\<close> for a string \<open>s\<close>: strings compare as strings, numbers and booleans through
  ToNumber of the string, null and undefined equal no string, objects through their string
  form.
\<close>

definition loose_equals_str :: "host \<Rightarrow> jsval \<Rightarrow> string \<Rightarrow> bool" where
  "loose_equals_str h v s =
     (case v of
        JStr a \<Rightarrow> a = s
      | JUndefined \<Rightarrow> False
      | JNull \<Rightarrow> False
      | JNum n \<Rightarrow> num_eq n (StringToNumber h s)
      | JBool b \<Rightarrow> num_eq (Finite (if b then 1 else 0)) (StringToNumber h s)
      | JFun f \<Rightarrow> ToString h v = s
      | JObj r \<Rightarrow> ToString h v = s)"

subsection \<open>Strings\<close>

text \<open>
  Strings are lists of 8-bit characters. The white space of \<^verbatim>\<open>\s\<close> and of \<^verbatim>\<open>trim\<close> in that
  range is tab, line feed, vertical tab, form feed, carriage return, space and no-break space;
  the line terminators, which \<^verbatim>\<open>.\<close> does not match, are line feed and carriage return.
\<close>

definition is_space :: "char \<Rightarrow> bool" where
  "is_space c = (c \<in> set [CHR 0x09, CHR 0x0A, CHR 0x0B, CHR 0x0C, CHR 0x0D, CHR 0x20, CHR 0xA0])"

definition is_line_terminator :: "char \<Rightarrow> bool" where
  "is_line_terminator c = (c = CHR 0x0A \<or> c = CHR 0x0D)"

definition is_word_char :: "char \<Rightarrow> bool" where
  "is_word_char c =
     (let n = (of_char c :: nat)
      in (97 \<le> n \<and> n \<le> 122) \<or> (65 \<le> n \<and> n \<le> 90) \<or> (48 \<le> n \<and> n \<le> 57) \<or> n = 95)"

definition startsWith :: "string \<Rightarrow> string \<Rightarrow> bool" where
  "startsWith s p = (take (length p) s = p)"

fun includes_str :: "string \<Rightarrow> string \<Rightarrow> bool" where
  "includes_str [] sub = (sub = [])"
| "includes_str (c # cs) sub = (startsWith (c # cs) sub \<or> includes_str cs sub)"

definition trim :: "string \<Rightarrow> string" where
  "trim s = rev (dropWhile is_space (rev (dropWhile is_space s)))"

text \<open>\<^verbatim>\<open>s.split(c)\<close> for a one-character separator.\<close>

fun split_char :: "char \<Rightarrow> string \<Rightarrow> string list" where
  "split_char sep [] = [[]]"
| "split_char sep (c # cs) =
     (if c = sep then [] # split_char sep cs
      else (case split_char sep cs of
              [] \<Rightarrow> [[c]]
            | p # ps \<Rightarrow> (c # p) # ps))"

text \<open>
  \<^verbatim>\<open>s.split(/\s*OP\s*/)\<close> for a two-character operator \<open>OP\<close> (\<^verbatim>\<open>||\<close> or \<^verbatim>\<open>&&\<close>).
  \<open>sep_len\<close> is the length of the match of the pattern at the start of a string: the white
  space, the operator, the white space after it. \<open>split_go\<close> walks the string as the
  language's split does: at each position it tries the pattern; a match closes the current part
  and the walk continues behind the match.
\<close>

definition sep_len :: "string \<Rightarrow> string \<Rightarrow> nat option" where
  "sep_len op s =
     (let ws = takeWhile is_space s; rest = dropWhile is_space s
      in if startsWith rest op
         then Some (length ws + length op + length (takeWhile is_space (drop (length op) rest)))
         else None)"

fun split_go :: "string \<Rightarrow> nat \<Rightarrow> string \<Rightarrow> string \<Rightarrow> string list" where
  "split_go op skip acc [] = [rev acc]"
| "split_go op (Suc k) acc (c # cs) = split_go op k acc cs"
| "split_go op 0 acc (c # cs) =
     (case sep_len op (c # cs) of
        Some n \<Rightarrow> rev acc # split_go op (n - 1) [] cs
      | None \<Rightarrow> split_go op 0 (c # acc) cs)"

definition split_op :: "string \<Rightarrow> string \<Rightarrow> string list" where
  "split_op op s = split_go op 0 [] s"

subsection \<open>parseCondition\<close>

text \<open>
  \<^verbatim>\<open>condition.match(/([a-zA-Z0-9_]+)\s*(==|!=|~=|>=|<=|>|<|matches)\s*(\/.*\/|.+)/)\<close>.
  The pattern is not anchored, so the engine takes the leftmost position where it matches, and
  at that position the first match in backtracking order: the longest key first, the operators
  in the order they are written, the longest run of white space first, and for the value the
  slash-delimited form before the plain one.
\<close>

text \<open>Group 3 at the start of a string: \<^verbatim>\<open>\/.*\/\<close>, else \<^verbatim>\<open>.+\<close>.\<close>

definition match_value :: "string \<Rightarrow> string option" where
  "match_value r =
     (let line = takeWhile (\<lambda>c. \<not> is_line_terminator c) r
      in if line \<noteq> [] \<and> hd line = CHR ''/'' \<and> CHR ''/'' \<in> set (tl line)
         then Some (CHR ''/'' # rev (dropWhile (\<lambda>c. c \<noteq> CHR ''/'') (rev (tl line))))
         else if line \<noteq> [] then Some line
         else None)"

text \<open>\<^verbatim>\<open>\s*\<close> followed by a continuation: give back white space one character at a time.\<close>

fun match_ws :: "(string \<Rightarrow> 'a option) \<Rightarrow> nat \<Rightarrow> string \<Rightarrow> 'a option" where
  "match_ws k 0 r = k r"
| "match_ws k (Suc n) r =
     (case k (drop (Suc n) r) of
        Some x \<Rightarrow> Some x
      | None \<Rightarrow> match_ws k n r)"

definition match_spaces :: "(string \<Rightarrow> 'a option) \<Rightarrow> string \<Rightarrow> 'a option" where
  "match_spaces k r = match_ws k (length (takeWhile is_space r)) r"

definition operators :: "string list" where
  "operators = [''=='', ''!='', ''~='', ''>='', ''<='', ''>'', ''<'', ''matches'']"

fun match_operator :: "string list \<Rightarrow> string \<Rightarrow> (string \<times> string) option" where
  "match_operator [] r = None"
| "match_operator (op # ops) r =
     (if startsWith r op
      then (case match_spaces match_value (drop (length op) r) of
              Some v \<Rightarrow> Some (op, v)
            | None \<Rightarrow> match_operator ops r)
      else match_operator ops r)"

text \<open>The key: \<open>n\<close> word characters, then fewer, down to one.\<close>

fun match_key :: "nat \<Rightarrow> string \<Rightarrow> (string \<times> string \<times> string) option" where
  "match_key 0 s = None"
| "match_key (Suc n) s =
     (case match_spaces (match_operator operators) (drop (Suc n) s) of
        Some (op, v) \<Rightarrow> Some (take (Suc n) s, op, v)
      | None \<Rightarrow> match_key n s)"

definition match_at :: "string \<Rightarrow> (string \<times> string \<times> string) option" where
  "match_at s = match_key (length (takeWhile is_word_char s)) s"

fun match_search :: "string \<Rightarrow> (string \<times> string \<times> string) option" where
  "match_search [] = None"
| "match_search (c # cs) =
     (case match_at (c # cs) of
        Some m \<Rightarrow> Some m
      | None \<Rightarrow> match_search cs)"

definition parseCondition :: "string \<Rightarrow> string \<times> string \<times> string" where
  "parseCondition condition =
     (case match_search condition of
        Some m \<Rightarrow> m
      | None \<Rightarrow> (condition, [], []))"

subsection \<open>Effects and the world\<close>

text \<open>
  Everything a call does outside the store and the document is recorded in a trace, in the order
  it happens: accesses to \<^verbatim>\<open>localStorage\<close> with their key, console output, animation-frame
  requests, scrolling, session-history entries, calls of the page's functions, listeners, and
  the assignments to the \<^verbatim>\<open>value\<close>, \<^verbatim>\<open>checked\<close> and \<^verbatim>\<open>textContent\<close> of the element
  at an index. \<open>StorageSet\<close> records the call of \<^verbatim>\<open>setItem\<close>, whether the storage takes
  the text or throws, and \<open>SetValue\<close> the assignment, whether the element takes the text or
  throws.
\<close>

datatype task = T_updateVisibility | T_updateClasses | T_trackOnShowElements | T_initialRender

datatype effect =
    StorageGet string
  | StorageSet string string
  | ConsoleError string
  | ConsoleWarn string
  | RequestFrame task
  | ScrollTo int int
  | PushState string
  | ReplaceState string
  | Invoke nat "jsval list"
  | AddListener string
  | RegisterServiceWorker
  | Observe nat
  | SetValue nat string
  | SetChecked nat bool
  | SetTextContent nat string

text \<open>
  The world: the state object behind the proxy, the items of the storage, the document, the
  subscribers, the path name and hash of the address, and what the script has set up so far.
  \<open>has_instance\<close> says that the constructor has got as far as \<^verbatim>\<open>StateSingleton.instance\<close>;
  \<open>script_done\<close> says that the script has run to its end, so that the constant
  \<^verbatim>\<open>State\<close> is initialised, the listeners of the router are installed and, in the standalone
  build, \<^verbatim>\<open>window.updateDOM\<close> is assigned. While the constructor runs it is false.
\<close>

record world =
  data :: "(string \<times> jsval) list"
  storage :: "(string \<times> string) list"
  doc :: "element list"
  subscribers :: "(string \<times> nat list) list"
  location :: string
  has_instance :: bool
  script_done :: bool
  deferredPrompt :: jsval
  interactionCount :: nat
  trace :: "effect list"

datatype 'a outcome = Returns 'a world | Throws error world

fun world_of :: "'a outcome \<Rightarrow> world" where
  "world_of (Returns a w) = w"
| "world_of (Throws e w) = w"

text \<open>Sequencing: a thrown exception skips the rest and keeps the world as it was left.\<close>

fun and_then :: "'a outcome \<Rightarrow> ('a \<Rightarrow> world \<Rightarrow> 'b outcome) \<Rightarrow> 'b outcome" where
  "and_then (Returns a w) f = f a w"
| "and_then (Throws e w) f = Throws e w"

fun for_each :: "('a \<Rightarrow> world \<Rightarrow> unit outcome) \<Rightarrow> 'a list \<Rightarrow> world \<Rightarrow> unit outcome" where
  "for_each f [] w = Returns () w"
| "for_each f (x # xs) w = and_then (f x w) (\<lambda>_. for_each f xs)"

definition emit :: "effect list \<Rightarrow> world \<Rightarrow> world" where
  "emit es w = w\<lparr>trace := trace w @ es\<rparr>"

text \<open>
  A plain object is the list of its own properties in insertion order. What it does not have
  itself it inherits from \<^verbatim>\<open>Object.prototype\<close>: the methods, which are the function
  references 0 to 10 (the functions of the page have other references), and the accessor
  \<^verbatim>\<open>__proto__\<close>, which answers with \<^verbatim>\<open>Object.prototype\<close> itself, the object reference 0.
\<close>

definition object_prototype :: "(string \<times> jsval) list" where
  "object_prototype =
     [(''constructor'', JFun 0), (''hasOwnProperty'', JFun 1), (''isPrototypeOf'', JFun 2),
      (''propertyIsEnumerable'', JFun 3), (''toLocaleString'', JFun 4), (''toString'', JFun 5),
      (''valueOf'', JFun 6), (''__defineGetter__'', JFun 7), (''__defineSetter__'', JFun 8),
      (''__lookupGetter__'', JFun 9), (''__lookupSetter__'', JFun 10), (''__proto__'', JObj 0)]"

text \<open>\<^verbatim>\<open>obj[key]\<close>\<close>

definition obj_get :: "(string \<times> jsval) list \<Rightarrow> string \<Rightarrow> jsval" where
  "obj_get obj key =
     (case map_of obj key of
        Some v \<Rightarrow> v
      | None \<Rightarrow> (case map_of object_prototype key of Some v \<Rightarrow> v | None \<Rightarrow> JUndefined))"

text \<open>
  \<^verbatim>\<open>obj[key] = v\<close>. On an object without a property \<^verbatim>\<open>__proto__\<close> of its own the
  assignment to that name reaches the inherited setter and adds no property: a primitive value
  is ignored, an object or null becomes the prototype. The model does not follow a change of
  prototype: the inherited names keep the values of \<^verbatim>\<open>Object.prototype\<close>.
\<close>

definition obj_put :: "(string \<times> jsval) list \<Rightarrow> string \<Rightarrow> jsval \<Rightarrow> (string \<times> jsval) list" where
  "obj_put obj key v =
     (if key = ''__proto__'' \<and> map_of obj key = None then obj else AList.update key v obj)"

text \<open>A property defined by an object literal or by spreading: always a property of its own.\<close>

definition obj_define :: "(string \<times> jsval) list \<Rightarrow> string \<Rightarrow> jsval \<Rightarrow> (string \<times> jsval) list" where
  "obj_define obj key v = AList.update key v obj"

text \<open>\<^verbatim>\<open>localStorage\<close>: the items with their keys.\<close>

definition getItem :: "(string \<times> string) list \<Rightarrow> string \<Rightarrow> string option" where
  "getItem items key = map_of items key"

definition setItem :: "(string \<times> string) list \<Rightarrow> string \<Rightarrow> string \<Rightarrow> (string \<times> string) list" where
  "setItem items key text = AList.update key text items"

definition getAttribute :: "element \<Rightarrow> string \<Rightarrow> string option" where
  "getAttribute e name = map_of (attributes e) name"

subsection \<open>evaluateCondition\<close>

text \<open>\<^verbatim>\<open>s.replace(pat, "")\<close> for a string \<open>pat\<close>: the first occurrence is removed.\<close>

fun remove_first :: "string \<Rightarrow> string \<Rightarrow> string" where
  "remove_first pat [] = []"
| "remove_first pat (c # cs) =
     (if startsWith (c # cs) pat then drop (length pat) (c # cs) else c # remove_first pat cs)"

text \<open>\<^verbatim>\<open>/[=<>!~]|matches/.test(condition)\<close>\<close>

definition has_operator :: "string \<Rightarrow> bool" where
  "has_operator s = ((\<exists>c \<in> set s. c \<in> set ''=<>!~'') \<or> includes_str s ''matches'')"

text \<open>\<^verbatim>\<open>s.replace(/^\/|\/$/g, "")\<close>: one slash off the front, then one off the end of what is left.\<close>

definition strip_slashes :: "string \<Rightarrow> string" where
  "strip_slashes s =
     (let s1 = (if startsWith s ''/'' then tl s else s)
      in if s1 \<noteq> [] \<and> last s1 = CHR ''/'' then butlast s1 else s1)"

text \<open>
  The value of the \<^verbatim>\<open>route\<close> key as the route operators read it. The standalone build calls
  \<^verbatim>\<open>startsWith\<close> on the value itself, a TypeError unless it is a string; the UMD build
  converts it with \<^verbatim>\<open>String(State.get("route") || "")\<close>.
\<close>

definition current_route :: "build \<Rightarrow> host \<Rightarrow> (string \<times> jsval) list \<Rightarrow> error + string" where
  "current_route b h d =
     (let v = obj_get d ''route''
      in case b of
           Standalone \<Rightarrow> (case v of JStr r \<Rightarrow> Inr r | _ \<Rightarrow> Inl TypeError)
         | UMD \<Rightarrow> Inr (to_string h (if truthy v then v else JStr [])))"

definition compare_op :: "host \<Rightarrow> string \<Rightarrow> jsval \<Rightarrow> string \<Rightarrow> bool" where
  "compare_op h operator stateValue expectedValue =
     (if operator = ''=='' then loose_equals_str h stateValue (trim expectedValue)
      else if operator = ''!='' then \<not> loose_equals_str h stateValue (trim expectedValue)
      else if operator = ''~='' then
        (case stateValue of JStr s \<Rightarrow> includes_str s (trim expectedValue) | _ \<Rightarrow> False)
      else if operator = ''>'' then
        num_gt (parseFloat h (to_string h stateValue)) (parseFloat h expectedValue)
      else if operator = ''<'' then
        num_lt (parseFloat h (to_string h stateValue)) (parseFloat h expectedValue)
      else if operator = ''>='' then
        num_ge (parseFloat h (to_string h stateValue)) (parseFloat h expectedValue)
      else if operator = ''<='' then
        num_le (parseFloat h (to_string h stateValue)) (parseFloat h expectedValue)
      else False)"

text \<open>
  A single condition gives a truth value or throws, and may write to the console; it reads the
  store and changes nothing.
\<close>

definition evaluateSingleCondition ::
  "build \<Rightarrow> host \<Rightarrow> (string \<times> jsval) list \<Rightarrow> string \<Rightarrow> (error + bool) \<times> effect list" where
  "evaluateSingleCondition b h d condition =
     (if startsWith condition ''!'' then
        (Inr (\<not> truthy (obj_get d (trim (drop 1 condition)))), [])
      else if startsWith condition ''route~='' then
        (case current_route b h d of
           Inl e \<Rightarrow> (Inl e, [])
         | Inr r \<Rightarrow> (Inr (startsWith r (trim (remove_first ''route~='' condition))), []))
      else if startsWith condition ''route=='' then
        (let expectedRoute = trim (remove_first ''route=='' condition)
         in case current_route b h d of
              Inl e \<Rightarrow> (Inl e, [])
            | Inr r \<Rightarrow> (Inr (r = expectedRoute \<or> startsWith r (expectedRoute @ ''#'')), []))
      else if startsWith condition ''route!='' then
        (let expectedRoute = trim (remove_first ''route!='' condition)
         in case current_route b h d of
              Inl e \<Rightarrow> (Inl e, [])
            | Inr r \<Rightarrow> (Inr (r \<noteq> expectedRoute \<and> \<not> startsWith r (expectedRoute @ ''#'')), []))
      else if startsWith condition ''route#='' then
        (let expectedRoute = trim (remove_first ''route#='' condition)
         in case current_route b h d of
              Inl e \<Rightarrow> (Inl e, [])
            | Inr r \<Rightarrow> (Inr (includes_str r ''#'' \<and> startsWith r (expectedRoute @ ''#'')), []))
      else if \<not> has_operator condition then
        (Inr (truthy (obj_get d condition)), [])
      else
        (case parseCondition condition of
           (stateKey, operator, expectedValue) \<Rightarrow>
             (let stateValue = obj_get d (trim stateKey)
              in if operator = ''matches'' then
                   (case RegExp_test h (strip_slashes (trim expectedValue)) stateValue of
                      Some m \<Rightarrow> (Inr m, [])
                    | None \<Rightarrow>
                        (case b of
                           Standalone \<Rightarrow> (Inr False, [ConsoleError ''Invalid regex in class-if condition:''])
                         | UMD \<Rightarrow> (Inr False, [])))
                 else (Inr (compare_op h operator stateValue expectedValue), []))))"

text \<open>
  \<^verbatim>\<open>every\<close> stops at the first false condition and \<^verbatim>\<open>some\<close> at the first true part; an
  exception ends both. The console output is that of the conditions evaluated.
\<close>

fun every_condition ::
  "build \<Rightarrow> host \<Rightarrow> (string \<times> jsval) list \<Rightarrow> string list \<Rightarrow> (error + bool) \<times> effect list" where
  "every_condition b h d [] = (Inr True, [])"
| "every_condition b h d (andPart # rest) =
     (case evaluateSingleCondition b h d (trim andPart) of
        (Inl e, out) \<Rightarrow> (Inl e, out)
      | (Inr False, out) \<Rightarrow> (Inr False, out)
      | (Inr True, out) \<Rightarrow>
          (case every_condition b h d rest of (r, out') \<Rightarrow> (r, out @ out')))"

fun some_part ::
  "build \<Rightarrow> host \<Rightarrow> (string \<times> jsval) list \<Rightarrow> string list \<Rightarrow> (error + bool) \<times> effect list" where
  "some_part b h d [] = (Inr False, [])"
| "some_part b h d (orPart # rest) =
     (case every_condition b h d (split_op ''&&'' orPart) of
        (Inl e, out) \<Rightarrow> (Inl e, out)
      | (Inr True, out) \<Rightarrow> (Inr True, out)
      | (Inr False, out) \<Rightarrow>
          (case some_part b h d rest of (r, out') \<Rightarrow> (r, out @ out')))"

definition evaluateCondition ::
  "build \<Rightarrow> host \<Rightarrow> (string \<times> jsval) list \<Rightarrow> string \<Rightarrow> (error + bool) \<times> effect list" where
  "evaluateCondition b h d condition = some_part b h d (split_op ''||'' condition)"

subsection \<open>Queries on the document\<close>

text \<open>
  The chain of ancestors of the element at an index, nearest first. In document order a parent
  comes before its children.
\<close>

function ancestors :: "element list \<Rightarrow> nat \<Rightarrow> nat list" where
  "ancestors d i =
     (if i < length d
      then (case parentIndex (d ! i) of
              Some p \<Rightarrow> if p < i then p # ancestors d p else []
            | None \<Rightarrow> [])
      else [])"
  by pat_completeness auto
termination
  by (relation "measure snd") auto

declare ancestors.simps [simp del]

text \<open>
  \<^verbatim>\<open>querySelectorAll\<close> returns the attached elements that match, in document order. The
  selectors the library writes out in full are attribute tests, tag tests and their
  combinations; each is modelled by the test it denotes.
\<close>

definition select_all :: "element list \<Rightarrow> (nat \<Rightarrow> bool) \<Rightarrow> nat list" where
  "select_all d P = filter (\<lambda>i. attached (d ! i) \<and> P i) [0..<length d]"

definition has_attribute :: "element list \<Rightarrow> string \<Rightarrow> nat \<Rightarrow> bool" where
  "has_attribute d name i = (getAttribute (d ! i) name \<noteq> None)"

definition attribute_is :: "element list \<Rightarrow> string \<Rightarrow> string \<Rightarrow> nat \<Rightarrow> bool" where
  "attribute_is d name v i = (getAttribute (d ! i) name = Some v)"

text \<open>
  Where the library builds a selector by placing a key or a group name between the double
  quotes of an attribute selector, the name is the attribute value the selector asks for if
  none of its characters ends or escapes a CSS string or is replaced by the CSS parser: the
  double quote, the backslash, line feed, form feed, carriage return and the null character.
  Any other selector is handed to the host, which throws a SyntaxError or returns the matches.
\<close>

definition css_safe :: "string \<Rightarrow> bool" where
  "css_safe name =
     list_all (\<lambda>c. c \<notin> set [CHR 0x00, CHR 0x0A, CHR 0x0C, CHR 0x0D, CHR 0x22, CHR 0x5C]) name"

definition select_by ::
  "host \<Rightarrow> element list \<Rightarrow> string \<Rightarrow> bool \<Rightarrow> (nat \<Rightarrow> bool) \<Rightarrow> error + nat list" where
  "select_by h d selector plain P =
     (if plain then Inr (select_all d P)
      else (case querySelectorAll h selector d of
              None \<Rightarrow> Inl SyntaxError
            | Some matches \<Rightarrow> Inr (filter (\<lambda>i. i < length d) matches)))"

definition is_form_field :: "element \<Rightarrow> bool" where
  "is_form_field e = (tagName e = ''INPUT'' \<or> tagName e = ''TEXTAREA'' \<or> tagName e = ''SELECT'')"

definition update_element :: "nat \<Rightarrow> (element \<Rightarrow> element) \<Rightarrow> world \<Rightarrow> world" where
  "update_element i f w = w\<lparr>doc := (doc w)[i := f (doc w ! i)]\<rparr>"

subsection \<open>updateVisibility and updateClasses\<close>

definition invoke :: "host \<Rightarrow> nat \<Rightarrow> jsval list \<Rightarrow> world \<Rightarrow> jsval outcome" where
  "invoke h f args w =
     (case call_fn h f (data w) of
        None \<Rightarrow> Throws Thrown (emit [Invoke f args] w)
      | Some v \<Rightarrow> Returns v (emit [Invoke f args] w))"

text \<open>
  A condition reads the store through the constant \<^verbatim>\<open>State\<close>, which is not initialised
  while the constructor runs: evaluating a condition then is a ReferenceError.
\<close>

definition evaluate_in :: "build \<Rightarrow> host \<Rightarrow> string \<Rightarrow> world \<Rightarrow> jsval outcome" where
  "evaluate_in b h condition w =
     (if \<not> script_done w then Throws ReferenceError w
      else (case evaluateCondition b h (data w) condition of
              (Inl e, out) \<Rightarrow> Throws e (emit out w)
            | (Inr v, out) \<Rightarrow> Returns (JBool v) (emit out w)))"

definition show_element :: "build \<Rightarrow> host \<Rightarrow> nat \<Rightarrow> world \<Rightarrow> unit outcome" where
  "show_element b h i w =
     (let element = doc w ! i;
          condition = (case getAttribute element ''show-if'' of Some c \<Rightarrow> c | None \<Rightarrow> [])
      in and_then
           (case showIf element of
              JFun f \<Rightarrow> invoke h f [] w
            | _ \<Rightarrow> if condition \<noteq> [] then evaluate_in b h (trim condition) w
                   else Returns (JBool False) w)
           (\<lambda>shouldShow w'.
              Returns () (update_element i
                (\<lambda>e. e\<lparr>style_display := (if truthy shouldShow then [] else ''none'')\<rparr>) w')))"

definition updateVisibility :: "build \<Rightarrow> host \<Rightarrow> world \<Rightarrow> unit outcome" where
  "updateVisibility b h w =
     and_then (for_each (show_element b h) (select_all (doc w) (has_attribute (doc w) ''show-if'')) w)
       (\<lambda>_ w'. Returns () (emit [RequestFrame T_trackOnShowElements] w'))"

text \<open>
  \<^verbatim>\<open>classList.toggle(token, force)\<close>: an empty token is a SyntaxError, one with ASCII white
  space an InvalidCharacterError. A force that is undefined counts as not given, and the token
  is flipped.
\<close>

definition toggle_force :: "string \<Rightarrow> jsval \<Rightarrow> string list \<Rightarrow> string list" where
  "toggle_force token force cl =
     (if force = JUndefined then (if token \<in> set cl then removeAll token cl else cl @ [token])
      else if truthy force then (if token \<in> set cl then cl else cl @ [token])
      else removeAll token cl)"

definition classList_toggle :: "string \<Rightarrow> bool \<Rightarrow> element \<Rightarrow> error + element" where
  "classList_toggle token force e =
     (if token = [] then Inl SyntaxError
      else if \<exists>c \<in> set token. c \<in> set [CHR 0x09, CHR 0x0A, CHR 0x0C, CHR 0x0D, CHR 0x20]
        then Inl InvalidCharacterError
      else Inr (e\<lparr>classList := toggle_force token (JBool force) (classList e)\<rparr>))"

definition toggle_class :: "nat \<Rightarrow> string \<Rightarrow> bool \<Rightarrow> world \<Rightarrow> unit outcome" where
  "toggle_class i token force w =
     (case classList_toggle token force (doc w ! i) of
        Inl e \<Rightarrow> Throws e w
      | Inr e' \<Rightarrow> Returns () (w\<lparr>doc := (doc w)[i := e']\<rparr>))"

definition apply_class_rule :: "build \<Rightarrow> host \<Rightarrow> nat \<Rightarrow> string \<Rightarrow> world \<Rightarrow> unit outcome" where
  "apply_class_rule b h i rule w =
     (if CHR ''?'' \<in> set rule then
        (case map trim (split_char CHR ''?'' rule) of
           condition # classes # _ \<Rightarrow>
             (let cs = map trim (split_char CHR '':'' classes);
                  trueClass = hd cs;
                  falseClass = (case tl cs of [] \<Rightarrow> [] | f # _ \<Rightarrow> f)
              in and_then (evaluate_in b h condition w)
                   (\<lambda>m w1.
                      and_then
                        (if b = UMD \<and> trueClass = [] then Returns () w1
                         else toggle_class i trueClass (truthy m) w1)
                        (\<lambda>_ w2.
                           if falseClass \<noteq> [] then toggle_class i falseClass (\<not> truthy m) w2
                           else Returns () w2)))
         | _ \<Rightarrow> Returns () w)
      else if CHR '':'' \<in> set rule then
        (case map trim (split_char CHR '':'' rule) of
           stateKey # className # _ \<Rightarrow>
             if \<not> script_done w then Throws ReferenceError w
             else toggle_class i className (truthy (obj_get (data w) stateKey)) w
         | _ \<Rightarrow> Returns () w)
      else Returns () w)"

definition class_rules :: "build \<Rightarrow> string \<Rightarrow> string list" where
  "class_rules b attr =
     (let rules = map trim (split_char CHR '';'' attr)
      in case b of Standalone \<Rightarrow> rules | UMD \<Rightarrow> filter (\<lambda>r. r \<noteq> []) rules)"

definition class_element :: "build \<Rightarrow> host \<Rightarrow> nat \<Rightarrow> world \<Rightarrow> unit outcome" where
  "class_element b h i w =
     (case getAttribute (doc w ! i) ''class-if'' of
        None \<Rightarrow> Returns () w
      | Some attr \<Rightarrow> for_each (apply_class_rule b h i) (class_rules b attr) w)"

definition updateClasses :: "build \<Rightarrow> host \<Rightarrow> world \<Rightarrow> unit outcome" where
  "updateClasses b h w =
     for_each (class_element b h) (select_all (doc w) (has_attribute (doc w) ''class-if'')) w"

subsection \<open>updateDOM\<close>

text \<open>
  The value written to a text field: \<^verbatim>\<open>value || ''\<close> in the standalone build,
  \<^verbatim>\<open>value ?? ''\<close> in the UMD build, converted to a string by the assignment.
\<close>

definition field_text :: "build \<Rightarrow> host \<Rightarrow> jsval \<Rightarrow> string" where
  "field_text b h value =
     (case b of
        Standalone \<Rightarrow> to_string h (if truthy value then value else JStr [])
      | UMD \<Rightarrow> to_string h (if value = JNull \<or> value = JUndefined then JStr [] else value))"

text \<open>Assigning \<^verbatim>\<open>textContent\<close>: null and undefined give the empty text.\<close>

definition text_of :: "host \<Rightarrow> jsval \<Rightarrow> string" where
  "text_of h value = (if value = JNull \<or> value = JUndefined then [] else to_string h value)"

text \<open>
  Assigning \<^verbatim>\<open>value\<close>: a \<^verbatim>\<open>select\<close> selects the option that has the value, and has the
  empty value if no option has it; any other field is sanitised by the host. The options of a
  \<^verbatim>\<open>select\<close> are taken as they are given with the element.
\<close>

definition assign_value :: "host \<Rightarrow> element \<Rightarrow> string \<Rightarrow> string option" where
  "assign_value h e text =
     (if tagName e = ''SELECT'' then Some (if text \<in> set (select_options e) then text else [])
      else sanitize h (tagName e) (el_type e) (attributes e) text)"

definition assign_field :: "host \<Rightarrow> nat \<Rightarrow> string \<Rightarrow> world \<Rightarrow> unit outcome" where
  "assign_field h i text w =
     (case assign_value h (doc w ! i) text of
        None \<Rightarrow> Throws InvalidStateError (emit [SetValue i text] w)
      | Some t \<Rightarrow> Returns () (emit [SetValue i text] (update_element i (\<lambda>e. e\<lparr>el_value := t\<rparr>) w)))"

text \<open>
  Assigning \<^verbatim>\<open>checked\<close>. Checking a radio button unchecks the other buttons of its group,
  which the model leaves as they are.
\<close>

definition assign_checked :: "nat \<Rightarrow> bool \<Rightarrow> world \<Rightarrow> world" where
  "assign_checked i c w = emit [SetChecked i c] (update_element i (\<lambda>e. e\<lparr>el_checked := c\<rparr>) w)"

text \<open>
  Assigning \<^verbatim>\<open>textContent\<close> replaces the content of the element, which removes its
  descendants from the document.
\<close>

definition set_textContent :: "nat \<Rightarrow> string \<Rightarrow> world \<Rightarrow> world" where
  "set_textContent i text w =
     emit [SetTextContent i text]
       (w\<lparr>doc := map (\<lambda>j. if i \<in> set (ancestors (doc w) j) then (doc w ! j)\<lparr>attached := False\<rparr>
                           else if j = i then (doc w ! j)\<lparr>textContent := text\<rparr>
                           else doc w ! j) [0..<length (doc w)]\<rparr>)"

text \<open>One round of the loop of \<^verbatim>\<open>updateDOM\<close>, for the element at an index.\<close>

definition bind_element :: "build \<Rightarrow> host \<Rightarrow> jsval \<Rightarrow> nat \<Rightarrow> world \<Rightarrow> unit outcome" where
  "bind_element b h value i w =
     (let element = doc w ! i
      in if is_form_field element then
           (if el_type element = ''checkbox'' then Returns () (assign_checked i (truthy value) w)
            else if el_type element = ''radio''
              then Returns () (assign_checked i (strict_equals (JStr (el_value element)) value) w)
            else assign_field h i (field_text b h value) w)
         else Returns () (set_textContent i (text_of h value) w))"

text \<open>
  \<^verbatim>\<open>updateDOM\<close>. In the standalone build the name is a property of \<^verbatim>\<open>window\<close> that the
  script assigns after the constructor has run; the UMD build binds it before. The elements are
  those the query returned before the loop started, and an exception leaves the rest of them as
  they are.
\<close>

definition updateDOM :: "build \<Rightarrow> host \<Rightarrow> string \<Rightarrow> jsval \<Rightarrow> world \<Rightarrow> unit outcome" where
  "updateDOM b h key value w =
     (if b = Standalone \<and> \<not> script_done w \<and> \<not> page_updateDOM h then Throws ReferenceError w
      else (case select_by h (doc w) (''[data-bind=\"'' @ key @ ''\"]'') (css_safe key)
                   (attribute_is (doc w) ''data-bind'' key) of
              Inl e \<Rightarrow> Throws e w
            | Inr elements \<Rightarrow>
                and_then (for_each (bind_element b h value) elements w)
                  (\<lambda>_ w'. Returns ()
                     (emit [RequestFrame T_updateVisibility, RequestFrame T_updateClasses] w'))))"

subsection \<open>The reactive store\<close>

text \<open>
  \<^verbatim>\<open>localStorage.setItem("state", JSON.stringify(this.data))\<close>: the whole state object is
  serialised and the text stored under the key \<^verbatim>\<open>"state"\<close>, unless the serialisation or
  the storage throws.
\<close>

definition store_state :: "host \<Rightarrow> world \<Rightarrow> error option \<times> world" where
  "store_state h w =
     (case JSON_stringify h (data w) of
        None \<Rightarrow> (Some TypeError, w)
      | Some text \<Rightarrow>
          if storage_refuses h (storage w) text
          then (Some QuotaExceededError, emit [StorageSet ''state'' text] w)
          else (None, emit [StorageSet ''state'' text]
                        (w\<lparr>storage := setItem (storage w) ''state'' text\<rparr>)))"

text \<open>
  \<^verbatim>\<open>updateLocalStorage\<close>, the callback the State singleton registers with \<^verbatim>\<open>reactive\<close>:
  the state is stored, then the document is refreshed. The UMD build ignores an exception of
  the storage write and goes on; in the standalone build it ends the callback.
\<close>

definition updateLocalStorage :: "build \<Rightarrow> host \<Rightarrow> string \<Rightarrow> jsval \<Rightarrow> world \<Rightarrow> unit outcome" where
  "updateLocalStorage b h key value w =
     (case store_state h w of
        (failure, w1) \<Rightarrow>
          (case (b, failure) of
             (Standalone, Some e) \<Rightarrow> Throws e w1
           | _ \<Rightarrow> and_then (updateDOM b h key value w1)
                    (\<lambda>_ w2. and_then (updateVisibility b h w2) (\<lambda>_. updateClasses b h))))"

text \<open>
  The \<^verbatim>\<open>set\<close> trap of the proxy that \<^verbatim>\<open>reactive(obj, callback)\<close> returns; the target object
  is the \<open>data\<close> of the world.
\<close>

definition reactive_set ::
  "(string \<Rightarrow> jsval \<Rightarrow> world \<Rightarrow> unit outcome) \<Rightarrow> string \<Rightarrow> jsval \<Rightarrow> world \<Rightarrow> unit outcome" where
  "reactive_set callback key value w =
     (if strict_equals (obj_get (data w) key) value then Returns () w
      else callback key value (w\<lparr>data := obj_put (data w) key value\<rparr>))"

text \<open>\<^verbatim>\<open>this.data[key] = value\<close> on the State singleton.\<close>

definition write_data :: "build \<Rightarrow> host \<Rightarrow> string \<Rightarrow> jsval \<Rightarrow> world \<Rightarrow> unit outcome" where
  "write_data b h = reactive_set (updateLocalStorage b h)"

text \<open>
  \<^verbatim>\<open>this.subscribers[key]\<close> on the plain object of the subscribers. Under a name that
  \<^verbatim>\<open>Object.prototype\<close> defines and nobody has subscribed to, the lookup gives the
  inherited value, which is truthy and has neither \<^verbatim>\<open>forEach\<close> nor \<^verbatim>\<open>push\<close>: calling
  either is a TypeError.
\<close>

definition notify :: "host \<Rightarrow> string \<Rightarrow> jsval \<Rightarrow> world \<Rightarrow> unit outcome" where
  "notify h key value w =
     (case map_of (subscribers w) key of
        None \<Rightarrow> if map_of object_prototype key \<noteq> None then Throws TypeError w else Returns () w
      | Some callbacks \<Rightarrow>
          for_each (\<lambda>f w'. and_then (invoke h f [value] w') (\<lambda>_. Returns ())) callbacks w)"

definition set_entry :: "build \<Rightarrow> host \<Rightarrow> string \<times> jsval \<Rightarrow> world \<Rightarrow> unit outcome" where
  "set_entry b h entry w =
     and_then (write_data b h (fst entry) (snd entry) w) (\<lambda>_. notify h (fst entry) (snd entry))"

definition State_set :: "build \<Rightarrow> host \<Rightarrow> (string \<times> jsval) list \<Rightarrow> world \<Rightarrow> unit outcome" where
  "State_set b h properties w =
     and_then (for_each (set_entry b h) properties w)
       (\<lambda>_ w'. Returns () (emit [RequestFrame T_updateVisibility, RequestFrame T_updateClasses] w'))"

definition State_get :: "world \<Rightarrow> string \<Rightarrow> jsval" where
  "State_get w key = obj_get (data w) key"

definition State_subscribe :: "host \<Rightarrow> string \<Rightarrow> nat \<Rightarrow> world \<Rightarrow> unit outcome" where
  "State_subscribe h key callback w =
     (if map_of (subscribers w) key = None \<and> map_of object_prototype key \<noteq> None
      then Throws TypeError w
      else
        (let old = (case map_of (subscribers w) key of None \<Rightarrow> [] | Some cs \<Rightarrow> cs);
             w1 = w\<lparr>subscribers := AList.update key (old @ [callback]) (subscribers w)\<rparr>
         in and_then (invoke h callback [obj_get (data w1) key] w1) (\<lambda>_. Returns ())))"

subsection \<open>The State singleton\<close>

definition initPWA :: "build \<Rightarrow> host \<Rightarrow> world \<Rightarrow> unit outcome" where
  "initPWA b h w =
     (case b of
        Standalone \<Rightarrow>
          (if displayStandalone h then write_data b h ''showInstallButton'' (JBool False) w
           else
             (let w1 = emit ((if serviceWorker h then [RegisterServiceWorker] else [])
                             @ [AddListener ''beforeinstallprompt'', AddListener ''appinstalled'']) w
              in if truthy (deferredPrompt w1)
                 then and_then (write_data b h ''pwaInstallPrompt'' (deferredPrompt w1) w1)
                        (\<lambda>_. write_data b h ''showInstallButton'' (JBool True))
                 else Returns () w1))
      | UMD \<Rightarrow>
          (if \<not> enablePWA h then Returns () w
           else and_then
                  (if displayStandalone h
                   then write_data b h ''showInstallButton'' (JBool False) w
                   else Returns () w)
                  (\<lambda>_ w1. Returns ()
                     (emit ([AddListener ''beforeinstallprompt'', AddListener ''appinstalled'']
                            @ (if serviceWorker h then [AddListener ''load''] else [])) w1))))"

definition trackUserEngagement :: "world \<Rightarrow> world" where
  "trackUserEngagement w =
     emit [AddListener ''click'', AddListener ''scroll'', AddListener ''keydown''] w"

text \<open>
  The constructor. \<^verbatim>\<open>localStorage.getItem\<close> gives null for a missing key, which
  \<^verbatim>\<open>JSON.parse\<close> reads as the text \<^verbatim>\<open>null\<close>. The class body is strict code, so adding a
  property to a parsed value that is a truthy primitive is a TypeError. The standalone build
  calls \<^verbatim>\<open>JSON.parse\<close> bare; the UMD build wraps it in \<^verbatim>\<open>try\<close> and falls back to an
  empty object.

  The UMD build declares \<^verbatim>\<open>reactive\<close> as a function of its closure. The standalone build
  assigns \<^verbatim>\<open>window.reactive\<close> in its last lines, after the line that constructs the
  singleton: unless the page has defined the name, the call in the constructor is a
  ReferenceError.
\<close>

definition stored_data :: "build \<Rightarrow> host \<Rightarrow> string option \<Rightarrow> error + (string \<times> jsval) list" where
  "stored_data b h item =
     (case (case item of None \<Rightarrow> Some (PValue JNull) | Some s \<Rightarrow> JSON_parse h s) of
        None \<Rightarrow> (case b of Standalone \<Rightarrow> Inl SyntaxError | UMD \<Rightarrow> Inr [])
      | Some (PObject obj) \<Rightarrow> Inr obj
      | Some (PValue v) \<Rightarrow> if truthy v then Inl TypeError else Inr [])"

definition construct :: "build \<Rightarrow> host \<Rightarrow> world \<Rightarrow> unit outcome" where
  "construct b h w =
     (if has_instance w then Returns () w
      else
        (let w1 = emit [StorageGet ''state''] w
         in case stored_data b h (getItem (storage w) ''state'') of
              Inl e \<Rightarrow> Throws e w1
            | Inr storedData \<Rightarrow>
                if b = Standalone \<and> \<not> page_reactive h then Throws ReferenceError w1
                else
                  (let initial = obj_put (obj_put storedData ''pwaInstallPrompt'' JNull)
                                   ''showInstallButton'' (JBool False);
                       w2 = emit [AddListener ''change'']
                              (w1\<lparr>data := initial, subscribers := [], has_instance := True,
                                   script_done := False\<rparr>)
                   in and_then (write_data b h ''route'' (JStr (location w2)) w2)
                        (\<lambda>_ w3. and_then (initPWA b h w3)
                           (\<lambda>_ w4. Returns ()
                              (emit [RequestFrame T_initialRender]
                                 (case b of Standalone \<Rightarrow> trackUserEngagement w4 | UMD \<Rightarrow> w4)))))))"

text \<open>
  The script as a whole: it constructs the singleton and, if the constructor returns, defines
  the rest of the library and installs the listeners of the router. The script is followed
  through one run on a page: in the browser the standalone build refuses a second run at its
  first statement, and a second run of the UMD build makes a second singleton beside the first.
\<close>

definition load_script :: "build \<Rightarrow> host \<Rightarrow> world \<Rightarrow> unit outcome" where
  "load_script b h w =
     and_then (construct b h w) (\<lambda>_ w'. Returns () (w'\<lparr>script_done := True\<rparr>))"

text \<open>\<^verbatim>\<open>reset(initialState)\<close>: deleting a key goes past the proxy's \<^verbatim>\<open>set\<close> trap, assigning goes through it.\<close>

definition or_empty :: "jsval \<Rightarrow> jsval" where
  "or_empty v = (if truthy v then v else JStr [])"

text \<open>The tokens of a \<^verbatim>\<open>className\<close> string: split at ASCII white space, each token once.\<close>

definition class_tokens :: "string \<Rightarrow> string list" where
  "class_tokens s =
     rev (remdups (rev (filter (\<lambda>t. t \<noteq> [])
       (foldr (\<lambda>c acc. if c \<in> set [CHR 0x09, CHR 0x0A, CHR 0x0C, CHR 0x0D, CHR 0x20]
                        then [] # acc
                        else (case acc of [] \<Rightarrow> [[c]] | t # ts \<Rightarrow> (c # t) # ts)) s [[]]))))"

definition reset_element ::
  "host \<Rightarrow> (string \<times> jsval) list \<Rightarrow> nat \<Rightarrow> world \<Rightarrow> unit outcome" where
  "reset_element h initialState i w =
     (let el = doc w ! i;
          bindKey = (case getAttribute el ''data-bind'' of Some k \<Rightarrow> k | None \<Rightarrow> []);
          showAttr = (case getAttribute el ''show-if'' of Some k \<Rightarrow> k | None \<Rightarrow> []);
          classAttr = (case getAttribute el ''class-if'' of Some k \<Rightarrow> k | None \<Rightarrow> []);
          v = obj_get initialState bindKey
      in and_then
           (if bindKey = [] then Returns () w
            else if tagName el = ''INPUT'' then
              (if el_type el = ''checkbox'' \<or> el_type el = ''radio''
               then Returns () (assign_checked i (truthy v) w)
               else assign_field h i (to_string h (or_empty v)) w)
            else if tagName el = ''TEXTAREA'' \<or> tagName el = ''SELECT''
              then assign_field h i (to_string h (or_empty v)) w
            else Returns () (set_textContent i (to_string h (or_empty v)) w))
           (\<lambda>_ w1.
              and_then
                (case (if showAttr = [] then JUndefined else obj_get (data w1) showAttr) of
                   JFun f \<Rightarrow> and_then (invoke h f [] w1)
                               (\<lambda>r w2. Returns () (update_element i
                                  (\<lambda>e. e\<lparr>style_display := (if truthy r then [] else ''none'')\<rparr>) w2))
                 | _ \<Rightarrow> Returns () w1)
                (\<lambda>_ w3.
                   (case (if classAttr = [] then JUndefined else obj_get (data w3) classAttr) of
                      JFun f \<Rightarrow> and_then (invoke h f [] w3)
                                  (\<lambda>r w4. Returns () (update_element i
                                     (\<lambda>e. e\<lparr>classList := class_tokens (to_string h (or_empty r))\<rparr>) w4))
                    | _ \<Rightarrow> Returns () w3))))"

definition State_reset :: "build \<Rightarrow> host \<Rightarrow> (string \<times> jsval) list \<Rightarrow> world \<Rightarrow> unit outcome" where
  "State_reset b h initialState w =
     and_then
       (for_each (\<lambda>entry. write_data b h (fst entry) (snd entry)) initialState
          (w\<lparr>data := [], subscribers := []\<rparr>))
       (\<lambda>_ w1. for_each (reset_element h initialState)
                  (select_all (doc w1)
                     (\<lambda>i. has_attribute (doc w1) ''data-bind'' i \<or> has_attribute (doc w1) ''show-if'' i
                           \<or> has_attribute (doc w1) ''class-if'' i)) w1)"

subsection \<open>bindInputs\<close>

text \<open>
  The listener \<^verbatim>\<open>bindInputs\<close> installs for \<^verbatim>\<open>change\<close> events on the document, run for an
  event whose target is the element at an index. An element that is not a form field has no
  \<^verbatim>\<open>value\<close> property.
\<close>

definition target_value :: "element \<Rightarrow> jsval" where
  "target_value target =
     (if el_type target = ''checkbox'' then JBool (el_checked target)
      else if is_form_field target then JStr (el_value target)
      else JUndefined)"

definition on_change :: "build \<Rightarrow> host \<Rightarrow> nat \<Rightarrow> world \<Rightarrow> unit outcome" where
  "on_change b h i w =
     (let target = doc w ! i
      in case getAttribute target ''data-bind'' of
           None \<Rightarrow> Returns () w
         | Some key \<Rightarrow>
             if key = [] then Returns () w
             else and_then (write_data b h key (target_value target) w)
                    (\<lambda>_ w1. and_then (updateDOM b h key (target_value target) w1)
                       (\<lambda>_ w2. and_then (updateVisibility b h w2) (\<lambda>_. updateClasses b h))))"

subsection \<open>The router\<close>

datatype nav_options = NavState "(string \<times> jsval) list" | NavReplace bool | NavOther

text \<open>
  \<^verbatim>\<open>const [pathname, hash] = path.split('#')\<close> and
  \<^verbatim>\<open>fullPath = hash ? `${pathname}#${hash}` : pathname\<close>. The entry of the session
  history is asked for with the full path as its URL; the host resolves it, and the UMD build
  ignores an exception of the browser.
\<close>

definition path_hash :: "string \<Rightarrow> string" where
  "path_hash path = (case tl (split_char CHR ''#'' path) of [] \<Rightarrow> [] | hash # _ \<Rightarrow> hash)"

definition full_path :: "string \<Rightarrow> string" where
  "full_path path =
     (let pathname = hd (split_char CHR ''#'' path); hash = path_hash path
      in if hash \<noteq> [] then pathname @ ''#'' @ hash else pathname)"

definition navigate :: "build \<Rightarrow> host \<Rightarrow> string \<Rightarrow> nav_options \<Rightarrow> bool \<Rightarrow> world \<Rightarrow> unit outcome" where
  "navigate b h path options replace w =
     (let hash = path_hash path; fullPath = full_path path
      in if strict_equals (JStr fullPath) (State_get w ''route'') then Returns () w
         else
           (let stateToSet = (case options of NavState obj \<Rightarrow> obj | _ \<Rightarrow> []);
                shouldReplace = (case options of NavState obj \<Rightarrow> replace
                                 | NavReplace r \<Rightarrow> r | NavOther \<Rightarrow> False)
            in and_then
                 (State_set b h (foldl (\<lambda>obj entry. obj_define obj (fst entry) (snd entry))
                                   [(''route'', JStr fullPath)] stateToSet) w)
                 (\<lambda>_ w1.
                    (let w2 = emit ((if hash = [] then [ScrollTo 0 0] else [])
                                    @ [if shouldReplace then ReplaceState fullPath
                                       else PushState fullPath]) w1
                     in case history_url h (location w1) fullPath of
                          Some url \<Rightarrow> Returns () (w2\<lparr>location := url\<rparr>)
                        | None \<Rightarrow> (case b of
                                     Standalone \<Rightarrow> Throws SecurityError w2
                                   | UMD \<Rightarrow> Returns () w2)))))"

definition on_popstate :: "build \<Rightarrow> host \<Rightarrow> string option \<Rightarrow> world \<Rightarrow> unit outcome" where
  "on_popstate b h state_path w =
     navigate b h (case state_path of None \<Rightarrow> ''/'' | Some p \<Rightarrow> if p = [] then ''/'' else p)
       (NavReplace True) False w"

definition on_hashchange :: "build \<Rightarrow> host \<Rightarrow> world \<Rightarrow> unit outcome" where
  "on_hashchange b h w =
     (if \<not> strict_equals (State_get w ''route'') (JStr (location w))
      then State_set b h [(''route'', JStr (location w))] w
      else Returns () w)"

text \<open>
  \<^verbatim>\<open>navigate(State.get('route') || '/', true)\<close> when the document has loaded. A route that
  is not a string has no \<^verbatim>\<open>split\<close> in the standalone build; the UMD build converts it.
\<close>

definition on_DOMContentLoaded :: "build \<Rightarrow> host \<Rightarrow> world \<Rightarrow> unit outcome" where
  "on_DOMContentLoaded b h w =
     (let r = State_get w ''route''
      in if \<not> truthy r then navigate b h ''/'' (NavReplace True) False w
         else (case r of
                 JStr p \<Rightarrow> navigate b h p (NavReplace True) False w
               | _ \<Rightarrow> (case b of
                         Standalone \<Rightarrow> Throws TypeError w
                       | UMD \<Rightarrow> navigate b h (to_string h r) (NavReplace True) False w)))"

subsection \<open>Validation\<close>

text \<open>
  The three queries of \<^verbatim>\<open>validate\<close> and \<^verbatim>\<open>resetValidation\<close>, each built around the
  group name between double quotes. In the selector
  \<^verbatim>\<open>[group="g"] input, select, textarea\<close> the comma separates three selectors, and only the
  first of them names the group. A selector that the browser rejects ends the call before any
  field is looked at.
\<close>

definition tag_in :: "element list \<Rightarrow> string list \<Rightarrow> nat \<Rightarrow> bool" where
  "tag_in d tags i = (tagName (d ! i) \<in> set tags)"

definition inside :: "element list \<Rightarrow> (nat \<Rightarrow> bool) \<Rightarrow> nat \<Rightarrow> bool" where
  "inside d P i = (\<exists>a \<in> set (ancestors d i). P a)"

definition group_fields :: "host \<Rightarrow> element list \<Rightarrow> string \<Rightarrow> error + nat list" where
  "group_fields h d groupName =
     (let in_group = attribute_is d ''group'' groupName;
          field_tag = tag_in d [''INPUT'', ''SELECT'', ''TEXTAREA''];
          plain = css_safe groupName;
          selector = ''[group=\"'' @ groupName @ ''\"]''
      in case select_by h d selector plain in_group of
           Inl e \<Rightarrow> Inl e
         | Inr wrappers \<Rightarrow>
             (let wrapperFields =
                    (case wrappers of
                       [] \<Rightarrow> []
                     | wrapper # _ \<Rightarrow>
                         select_all d (\<lambda>i. wrapper \<in> set (ancestors d i) \<and> field_tag i))
              in case select_by h d (selector @ '':is(input, select, textarea)'') plain
                        (\<lambda>i. in_group i \<and> field_tag i) of
                   Inl e \<Rightarrow> Inl e
                 | Inr directFields \<Rightarrow>
                     (case select_by h d (selector @ '' input, select, textarea'') plain
                             (\<lambda>i. (tag_in d [''INPUT''] i \<and> inside d in_group i)
                                  \<or> tag_in d [''SELECT''] i \<or> tag_in d [''TEXTAREA''] i) of
                        Inl e \<Rightarrow> Inl e
                      | Inr extraFieldsInsideGroups \<Rightarrow>
                          Inr (rev (remdups (rev (wrapperFields @ directFields
                                                   @ extraFieldsInsideGroups)))))))"

definition is_function :: "jsval \<Rightarrow> bool" where
  "is_function v = (case v of JFun f \<Rightarrow> True | _ \<Rightarrow> False)"

definition validate_fields :: "host \<Rightarrow> element list \<Rightarrow> string \<Rightarrow> error + nat list" where
  "validate_fields h d groupName =
     (case group_fields h d groupName of
        Inl e \<Rightarrow> Inl e
      | Inr fs \<Rightarrow> Inr (filter (\<lambda>i. is_function (validIf (d ! i))) fs))"

text \<open>
  One round of the loop of \<^verbatim>\<open>validate\<close>; the accumulator holds \<^verbatim>\<open>allValid\<close> and
  \<^verbatim>\<open>validationStates\<close>. An exception of the field's function is caught.
\<close>

definition validate_field ::
  "build \<Rightarrow> host \<Rightarrow> (bool \<times> (string \<times> jsval) list) \<times> world \<Rightarrow> nat
     \<Rightarrow> (bool \<times> (string \<times> jsval) list) \<times> world" where
  "validate_field b h acc i =
     (case acc of
        ((allValid, states), w) \<Rightarrow>
          (let field = doc w ! i;
               bindKey = (case getAttribute field ''data-bind'' of Some k \<Rightarrow> k | None \<Rightarrow> [])
           in case validIf field of
                JFun f \<Rightarrow>
                  if bindKey = [] then acc
                  else (case call_fn h f (data w) of
                          None \<Rightarrow>
                            ((False, states),
                             emit (Invoke f [] #
                                   (case b of
                                      Standalone \<Rightarrow> [ConsoleError ''Error executing valid-if function:'']
                                    | UMD \<Rightarrow> [])) w)
                        | Some isValid \<Rightarrow>
                            ((allValid \<and> truthy isValid,
                              obj_put (obj_put states (bindKey @ ''_valid'') isValid)
                                (bindKey @ ''_invalid'') (JBool (\<not> truthy isValid))),
                             update_element i
                               (\<lambda>e. e\<lparr>classList :=
                                     toggle_force ''invalid'' (JBool (\<not> truthy isValid))
                                       (toggle_force ''valid'' isValid (classList e))\<rparr>)
                               (emit [Invoke f []] w)))
              | _ \<Rightarrow> acc))"

definition validate :: "build \<Rightarrow> host \<Rightarrow> string \<Rightarrow> world \<Rightarrow> bool outcome" where
  "validate b h groupName w =
     (case validate_fields h (doc w) groupName of
        Inl e \<Rightarrow> Throws e w
      | Inr fs \<Rightarrow>
          (case foldl (validate_field b h) ((True, []), w) fs of
             ((allValid, states), w1) \<Rightarrow>
               and_then (State_set b h states w1)
                 (\<lambda>_ w2. and_then
                    (State_set b h [(groupName @ ''_valid'', JBool allValid),
                                    (groupName @ ''_invalid'', JBool (\<not> allValid))] w2)
                    (\<lambda>_. Returns allValid))))"

definition reset_field ::
  "(string \<times> jsval) list \<times> world \<Rightarrow> nat \<Rightarrow> (string \<times> jsval) list \<times> world" where
  "reset_field acc i =
     (case acc of
        (states, w) \<Rightarrow>
          (case getAttribute (doc w ! i) ''data-bind'' of
             None \<Rightarrow> acc
           | Some bindKey \<Rightarrow>
               if bindKey = [] then acc
               else (obj_put (obj_put states (bindKey @ ''_valid'') JUndefined)
                       (bindKey @ ''_invalid'') JUndefined,
                     update_element i
                       (\<lambda>e. e\<lparr>classList := removeAll ''invalid'' (removeAll ''valid'' (classList e))\<rparr>) w)))"

definition resetValidation :: "build \<Rightarrow> host \<Rightarrow> string \<Rightarrow> world \<Rightarrow> unit outcome" where
  "resetValidation b h groupName w =
     (case group_fields h (doc w) groupName of
        Inl e \<Rightarrow> Throws e w
      | Inr fs \<Rightarrow>
          (case foldl reset_field ([], w) fs of
             (states, w1) \<Rightarrow>
               and_then (State_set b h states w1)
                 (\<lambda>_. State_set b h [(groupName @ ''_valid'', JUndefined),
                                     (groupName @ ''_invalid'', JUndefined)])))"

subsection \<open>Install prompt, engagement and animation frames\<close>

definition checkForExistingPrompt :: "build \<Rightarrow> host \<Rightarrow> world \<Rightarrow> unit outcome" where
  "checkForExistingPrompt b h w =
     (if truthy (deferredPrompt w)
      then and_then (write_data b h ''pwaInstallPrompt'' (deferredPrompt w) w)
             (\<lambda>_. write_data b h ''showInstallButton'' (JBool True))
      else Returns () w)"

definition on_beforeinstallprompt :: "build \<Rightarrow> host \<Rightarrow> jsval \<Rightarrow> world \<Rightarrow> unit outcome" where
  "on_beforeinstallprompt b h e w =
     and_then (write_data b h ''pwaInstallPrompt'' e w)
       (\<lambda>_ w1. and_then (write_data b h ''showInstallButton'' (JBool True) w1)
          (\<lambda>_ w2. Returns () (case b of Standalone \<Rightarrow> w2\<lparr>deferredPrompt := e\<rparr> | UMD \<Rightarrow> w2)))"

definition on_appinstalled :: "build \<Rightarrow> host \<Rightarrow> world \<Rightarrow> unit outcome" where
  "on_appinstalled b h w =
     and_then (write_data b h ''pwaInstallPrompt'' JNull w)
       (\<lambda>_. write_data b h ''showInstallButton'' (JBool False))"

text \<open>\<^verbatim>\<open>trackInteraction\<close>, the click, scroll and keydown listener of the standalone build.\<close>

definition trackInteraction :: "build \<Rightarrow> host \<Rightarrow> world \<Rightarrow> unit outcome" where
  "trackInteraction b h w =
     (let n = Suc (interactionCount w)
      in and_then (write_data b h ''userInteractions'' (JNum (Finite (of_nat n)))
                     (w\<lparr>interactionCount := n\<rparr>))
           (\<lambda>_ w1. if 2 \<le> n \<and> \<not> truthy (State_get w1 ''pwaInstallPrompt'') \<and> truthy (deferredPrompt w1)
                    then checkForExistingPrompt b h w1
                    else Returns () w1))"

definition trackOnShowElements :: "world \<Rightarrow> world" where
  "trackOnShowElements w =
     (let fresh = select_all (doc w) (\<lambda>i. has_attribute (doc w) ''onShow'' i \<and> \<not> onShowObserver (doc w ! i))
      in emit (map Observe fresh)
           (w\<lparr>doc := map (\<lambda>j. if j \<in> set fresh then (doc w ! j)\<lparr>onShowObserver := True\<rparr> else doc w ! j)
                         [0..<length (doc w)]\<rparr>))"

definition run_frame :: "build \<Rightarrow> host \<Rightarrow> task \<Rightarrow> world \<Rightarrow> unit outcome" where
  "run_frame b h t w =
     (case t of
        T_updateVisibility \<Rightarrow> updateVisibility b h w
      | T_updateClasses \<Rightarrow> updateClasses b h w
      | T_trackOnShowElements \<Rightarrow> Returns () (trackOnShowElements w)
      | T_initialRender \<Rightarrow>
          and_then
            (for_each (\<lambda>key w'. updateDOM b h key (obj_get (data w') key) w')
               (map fst (data w)) w)
            (\<lambda>_ w1. and_then (updateVisibility b h w1) (\<lambda>_. updateClasses b h)))"

subsection \<open>The operations of the library\<close>

text \<open>
  The calls a page can make and the events the library listens to. The element builder
  \<^verbatim>\<open>h\<close> reaches the store only through \<^verbatim>\<open>State.set\<close>, \<^verbatim>\<open>State.get\<close> and
  \<^verbatim>\<open>State.subscribe\<close>; the asynchronous \<^verbatim>\<open>triggerInstall\<close> only through writes to the
  store.
\<close>

datatype operation =
    Op_construct
  | Op_set "(string \<times> jsval) list"
  | Op_subscribe string nat
  | Op_reset "(string \<times> jsval) list"
  | Op_navigate string nav_options bool
  | Op_validate string
  | Op_resetValidation string
  | Op_write string jsval
  | Ev_change nat
  | Ev_popstate "string option"
  | Ev_hashchange
  | Ev_DOMContentLoaded
  | Ev_ready
  | Ev_beforeinstallprompt jsval
  | Ev_appinstalled
  | Ev_interaction
  | Ev_frame task

text \<open>
  Until the script has run to its end there is no \<^verbatim>\<open>State\<close>, \<^verbatim>\<open>navigate\<close> or
  \<^verbatim>\<open>validate\<close> to call, and the listeners of the router are not installed. The listeners
  that the constructor installs, and the animation frames it requests, exist once the singleton
  does: the \<^verbatim>\<open>change\<close> listener, the install listeners where \<^verbatim>\<open>initPWA\<close> has reached
  them, and the engagement listeners of the standalone build. The second navigation on load is
  in the standalone build only.
\<close>

definition call :: "world \<Rightarrow> 'a outcome \<Rightarrow> 'a outcome" where
  "call w m = (if script_done w then m else Throws TypeError w)"

definition listener :: "bool \<Rightarrow> world \<Rightarrow> unit outcome \<Rightarrow> unit outcome" where
  "listener installed w m = (if installed then m else Returns () w)"

definition install_listeners :: "build \<Rightarrow> host \<Rightarrow> bool" where
  "install_listeners b h = (case b of Standalone \<Rightarrow> \<not> displayStandalone h | UMD \<Rightarrow> enablePWA h)"

definition run :: "build \<Rightarrow> host \<Rightarrow> operation \<Rightarrow> world \<Rightarrow> unit outcome" where
  "run b h op w =
     (case op of
        Op_construct \<Rightarrow> load_script b h w
      | Op_set properties \<Rightarrow> call w (State_set b h properties w)
      | Op_subscribe key f \<Rightarrow> call w (State_subscribe h key f w)
      | Op_reset initialState \<Rightarrow> call w (State_reset b h initialState w)
      | Op_navigate path options replace \<Rightarrow> call w (navigate b h path options replace w)
      | Op_validate g \<Rightarrow> call w (and_then (validate b h g w) (\<lambda>_. Returns ()))
      | Op_resetValidation g \<Rightarrow> call w (resetValidation b h g w)
      | Op_write key value \<Rightarrow> call w (write_data b h key value w)
      | Ev_change i \<Rightarrow> listener (has_instance w) w (on_change b h i w)
      | Ev_popstate p \<Rightarrow> listener (script_done w) w (on_popstate b h p w)
      | Ev_hashchange \<Rightarrow> listener (script_done w) w (on_hashchange b h w)
      | Ev_DOMContentLoaded \<Rightarrow> listener (script_done w) w (on_DOMContentLoaded b h w)
      | Ev_ready \<Rightarrow>
          listener (script_done w \<and> b = Standalone) w
            (navigate b h (location w) (NavReplace True) False w)
      | Ev_beforeinstallprompt e \<Rightarrow>
          listener (has_instance w \<and> install_listeners b h) w (on_beforeinstallprompt b h e w)
      | Ev_appinstalled \<Rightarrow>
          listener (has_instance w \<and> install_listeners b h) w (on_appinstalled b h w)
      | Ev_interaction \<Rightarrow> listener (has_instance w \<and> b = Standalone) w (trackInteraction b h w)
      | Ev_frame t \<Rightarrow> listener (has_instance w) w (run_frame b h t w))"

subsection \<open>A sample host and page\<close>

text \<open>
  A host and a page on which the theorems below are evaluated. The sample codec knows the texts
  it is asked about: it parses \<^verbatim>\<open>{}\<close> and \<^verbatim>\<open>{"route":"/","showInstallButton":true}\<close>,
  rejects everything else, and serialises an object to the list of its keys. The storage takes
  every text, the selector engine rejects the selectors it is asked about, which are those with
  a stray double quote, a file input rejects a text that is not empty, and the address follows
  the URL of a history entry. The page defines nothing of the library.
\<close>

definition sample_host :: host where
  "sample_host =
     \<lparr> JSON_parse = (\<lambda>s. if s = ''{}'' then Some (PObject [])
                         else if s = ''{\"route\":\"/\",\"showInstallButton\":true}''
                           then Some (PObject [(''route'', JStr ''/''), (''showInstallButton'', JBool True)])
                         else None),
       JSON_stringify = (\<lambda>obj. Some (concat (map (\<lambda>entry. fst entry @ '';'') obj))),
       storage_refuses = (\<lambda>items text. False),
       ToString = (\<lambda>v. ''[object Object]''),
       StringToNumber = (\<lambda>s. NaN),
       parseFloat = (\<lambda>s. NaN),
       RegExp_test = (\<lambda>pattern v. if pattern = ''('' then None else Some False),
       querySelectorAll = (\<lambda>selector d. None),
       sanitize = (\<lambda>tag type attrs text. if type = ''file'' \<and> text \<noteq> [] then None else Some text),
       history_url = (\<lambda>location url. Some url),
       call_fn = (\<lambda>f obj. Some (JBool True)),
       page_reactive = False,
       page_updateDOM = False,
       displayStandalone = False,
       serviceWorker = False,
       enablePWA = False \<rparr>"

definition sample_input :: element where
  "sample_input =
     \<lparr> tagName = ''INPUT'', el_type = ''text'', attributes = [(''data-bind'', ''name'')],
       el_value = [], el_checked = False, select_options = [], textContent = [], classList = [],
       style_display = [],
       validIf = JUndefined, showIf = JUndefined, parentIndex = None, attached = True,
       onShowObserver = False \<rparr>"

definition sample_world :: world where
  "sample_world =
     \<lparr> data = [(''name'', JStr ''Ada''), (''route'', JStr ''/'')],
       storage = [],
       doc = [sample_input],
       subscribers = [],
       location = ''/'',
       has_instance = True,
       script_done = True,
       deferredPrompt = JUndefined,
       interactionCount = 0,
       trace = [] \<rparr>"

text \<open>
  A page with a sign-up form: a form element carrying \<^verbatim>\<open>group="signup"\<close>, an input inside
  it, and outside the form a select with a \<^verbatim>\<open>valid-if\<close> function and a plain input.
\<close>

definition sample_page :: "element list" where
  "sample_page =
     [ sample_input\<lparr>tagName := ''FORM'', el_type := [], attributes := [(''group'', ''signup'')]\<rparr>,
       sample_input\<lparr>attributes := [(''data-bind'', ''email'')], validIf := JFun 11,
                     parentIndex := Some 0\<rparr>,
       sample_input\<lparr>tagName := ''SELECT'', el_type := ''select-one'',
                     attributes := [(''data-bind'', ''country'')], validIf := JFun 12\<rparr>,
       sample_input\<lparr>attributes := [(''data-bind'', ''search'')], validIf := JFun 13\<rparr> ]"

text \<open>The running page with the sign-up form as its document.\<close>

definition signup_world :: world where
  "signup_world = sample_world\<lparr> doc := sample_page \<rparr>"

subsection \<open>Relations between worlds\<close>

text \<open>
  An effect that touches \<^verbatim>\<open>localStorage\<close> does so under the key \<^verbatim>\<open>"state"\<close>
  (\<open>state_key_only\<close>), or the effect does not touch it at all (\<open>no_storage_effect\<close>).
\<close>

definition state_key_only :: "effect \<Rightarrow> bool" where
  "state_key_only e =
     (case e of StorageGet k \<Rightarrow> k = ''state'' | StorageSet k t \<Rightarrow> k = ''state'' | _ \<Rightarrow> True)"

definition no_storage_effect :: "effect \<Rightarrow> bool" where
  "no_storage_effect e = (case e of StorageGet k \<Rightarrow> False | StorageSet k t \<Rightarrow> False | _ \<Rightarrow> True)"

text \<open>
  Two states of the same element: tag, type, attributes, options and parent are as before
  (\<open>same_element\<close>); moreover the values are (\<open>same_values\<close>); moreover it is attached as
  before, so that the two differ at most in the classes and the display style
  (\<open>same_binding\<close>).
\<close>

definition same_element :: "element \<Rightarrow> element \<Rightarrow> bool" where
  "same_element e e' =
     (tagName e' = tagName e \<and> el_type e' = el_type e \<and> attributes e' = attributes e
      \<and> select_options e' = select_options e \<and> parentIndex e' = parentIndex e)"

definition same_values :: "element \<Rightarrow> element \<Rightarrow> bool" where
  "same_values e e' =
     (same_element e e' \<and> el_value e' = el_value e \<and> el_checked e' = el_checked e
      \<and> textContent e' = textContent e)"

definition same_binding :: "element \<Rightarrow> element \<Rightarrow> bool" where
  "same_binding e e' = (same_values e e' \<and> attached e' = attached e)"

text \<open>
  A refresh of the document: the store and the storage are as before, the elements keep their
  values, and the trace has grown by effects that leave the storage alone.
\<close>

definition refreshed :: "world \<Rightarrow> world \<Rightarrow> bool" where
  "refreshed w w' =
     (data w' = data w \<and> storage w' = storage w \<and> subscribers w' = subscribers w
      \<and> location w' = location w \<and> has_instance w' = has_instance w
      \<and> script_done w' = script_done w
      \<and> length (doc w') = length (doc w)
      \<and> (\<forall>i < length (doc w). same_binding (doc w ! i) (doc w' ! i))
      \<and> (\<exists>es. trace w' = trace w @ es \<and> list_all no_storage_effect es))"

text \<open>
  A step that writes to the document only: as a refresh, but the values of the elements and
  what is attached may have changed.
\<close>

definition rebound :: "world \<Rightarrow> world \<Rightarrow> bool" where
  "rebound w w' =
     (data w' = data w \<and> storage w' = storage w \<and> subscribers w' = subscribers w
      \<and> location w' = location w \<and> has_instance w' = has_instance w
      \<and> script_done w' = script_done w
      \<and> length (doc w') = length (doc w)
      \<and> (\<forall>i < length (doc w). same_element (doc w ! i) (doc w' ! i))
      \<and> (\<exists>es. trace w' = trace w @ es \<and> list_all no_storage_effect es))"

text \<open>
  A step that stays within the key \<^verbatim>\<open>"state"\<close>: every other item of the storage is as
  before, and the trace has grown by effects that use no other key.
\<close>

definition confined :: "world \<Rightarrow> world \<Rightarrow> bool" where
  "confined w w' =
     ((\<forall>k. k \<noteq> ''state'' \<longrightarrow> getItem (storage w') k = getItem (storage w) k)
      \<and> (\<exists>es. trace w' = trace w @ es \<and> list_all state_key_only es))"





definition full_host :: host where
  "full_host = sample_host\<lparr> storage_refuses := (\<lambda>items text. True) \<rparr>"


text \<open>A first visit to a page whose stored record is not JSON.\<close>

definition malformed_world :: world where
  "malformed_world =
     sample_world\<lparr> data := [], has_instance := False, script_done := False,
                    storage := [(''state'', ''{not json'')] \<rparr>"

text \<open>
  The conditions that \<^verbatim>\<open>evaluateSingleCondition\<close> hands to \<^verbatim>\<open>parseCondition\<close>: those
  that are neither a negation nor a route test and contain an operator character.
\<close>

definition reaches_comparison :: "string \<Rightarrow> bool" where
  "reaches_comparison condition =
     (\<not> startsWith condition ''!'' \<and> \<not> startsWith condition ''route~=''
      \<and> \<not> startsWith condition ''route=='' \<and> \<not> startsWith condition ''route!=''
      \<and> \<not> startsWith condition ''route#='' \<and> has_operator condition)"












text \<open>A session: operations one after the other, whether or not one of them throws.\<close>

definition run_all :: "build \<Rightarrow> host \<Rightarrow> operation list \<Rightarrow> world \<Rightarrow> world" where
  "run_all b h ops w = foldl (\<lambda>w' op. world_of (run b h op w')) w ops"

text \<open>A first visit to a page of a site that keeps an item of its own in the storage.\<close>

definition themed_world :: world where
  "themed_world =
     sample_world\<lparr> data := [], has_instance := False, script_done := False,
                    storage := [(''theme'', ''dark'')] \<rparr>"

section \<open>Properties\<close>

subsection \<open>Writes that change nothing\<close>

text \<open>
  C8. Writing to a store key a value strictly equal to the one it holds does nothing: whatever
  callback was registered, the proxy returns with the world as it was, so the callback has not
  run, the storage has not been written, the document has not been refreshed, and the state
  object is unchanged.
\<close>

theorem unchanged_write_is_noop:
  assumes "strict_equals (obj_get (data w) key) value"
  shows "reactive_set callback key value w = Returns () w
         \<and> write_data b h key value w = Returns () w
         \<and> data (world_of (write_data b h key value w)) = data w
         \<and> storage (world_of (write_data b h key value w)) = storage w
         \<and> doc (world_of (write_data b h key value w)) = doc w
         \<and> trace (world_of (write_data b h key value w)) = trace w"
  using assms by (simp add: reactive_set_def write_data_def)

theorem unchanged_write_is_noop_witness:
  "strict_equals (obj_get (data sample_world) ''name'') (JStr ''Ada'')
   \<and> write_data Standalone sample_host ''name'' (JStr ''Ada'') sample_world = Returns () sample_world"
proof -
  have h: "strict_equals (obj_get (data sample_world) ''name'') (JStr ''Ada'')"
    by (simp add: sample_world_def obj_get_def strict_equals_def)
  show ?thesis
    using h unchanged_write_is_noop [OF h, of "updateLocalStorage Standalone sample_host" Standalone sample_host]
    by simp
qed

subsection \<open>Navigating to the current route\<close>

text \<open>
  C9. When the path, normalised to its path name and first hash fragment, is the string stored
  under the key \<^verbatim>\<open>route\<close>, \<^verbatim>\<open>navigate\<close> returns with the world as it was: no key of the
  store is set, nothing is scrolled, and no entry of the session history is pushed or replaced.
\<close>

theorem navigate_same_route_is_noop:
  assumes "State_get w ''route'' = JStr (full_path path)"
  shows "navigate b h path options replace w = Returns () w"
  using assms by (simp add: navigate_def strict_equals_def Let_def)

theorem navigate_same_route_is_noop_witness:
  "State_get sample_world ''route'' = JStr (full_path ''/#'')
   \<and> navigate Standalone sample_host ''/#'' (NavState [(''name'', JStr ''Bob'')]) False sample_world
       = Returns () sample_world"
proof -
  have h: "State_get sample_world ''route'' = JStr (full_path ''/#'')"
    by (simp add: State_get_def sample_world_def obj_get_def full_path_def path_hash_def)
  show ?thesis using h navigate_same_route_is_noop [OF h] by simp
qed

subsection \<open>The fields of a validation group\<close>

lemma set_select_all: "set (select_all d P) = {i. i < length d \<and> attached (d ! i) \<and> P i}"
  by (auto simp: select_all_def)

lemma group_fields_plain:
  assumes "css_safe g"
  shows "group_fields h d g =
     Inr (rev (remdups (rev
       ((case select_all d (attribute_is d ''group'' g) of
           [] \<Rightarrow> []
         | wrapper # _ \<Rightarrow>
             select_all d (\<lambda>i. wrapper \<in> set (ancestors d i)
                                \<and> tag_in d [''INPUT'', ''SELECT'', ''TEXTAREA''] i))
        @ select_all d (\<lambda>i. attribute_is d ''group'' g i
                             \<and> tag_in d [''INPUT'', ''SELECT'', ''TEXTAREA''] i)
        @ select_all d (\<lambda>i. (tag_in d [''INPUT''] i \<and> inside d (attribute_is d ''group'' g) i)
                             \<or> tag_in d [''SELECT''] i \<or> tag_in d [''TEXTAREA''] i)))))"
  using assms by (simp add: group_fields_def select_by_def Let_def)

lemma set_group_fields_extra:
  assumes "css_safe g" and "group_fields h d g = Inr fs"
  shows "{i. i < length d \<and> attached (d ! i)
        \<and> ((tag_in d [''INPUT''] i \<and> inside d (attribute_is d ''group'' g) i)
            \<or> tag_in d [''SELECT''] i \<or> tag_in d [''TEXTAREA''] i)} \<subseteq> set fs"
  using assms(2) unfolding group_fields_plain [OF assms(1)]
  by (auto simp: set_select_all)

lemma select_all_first: "select_all d P = x # xs \<Longrightarrow> P x"
proof -
  assume "select_all d P = x # xs"
  then have "x \<in> set (select_all d P)" by simp
  then show "P x" by (simp add: set_select_all)
qed

lemma group_fields_cases:
  assumes "css_safe g" and "group_fields h d g = Inr fs" and "j \<in> set fs"
  shows "(\<exists>wrapper. attribute_is d ''group'' g wrapper \<and> wrapper \<in> set (ancestors d j))
         \<or> attribute_is d ''group'' g j
         \<or> (tag_in d [''INPUT''] j \<and> inside d (attribute_is d ''group'' g) j)
         \<or> tag_in d [''SELECT''] j \<or> tag_in d [''TEXTAREA''] j"
proof (cases "select_all d (attribute_is d ''group'' g)")
  case Nil
  with assms(2,3) show ?thesis
    unfolding group_fields_plain [OF assms(1)]
    by (auto simp: set_select_all)
next
  case (Cons wrapper rest)
  have "attribute_is d ''group'' g wrapper" using Cons by (rule select_all_first)
  with assms(2,3) Cons show ?thesis
    unfolding group_fields_plain [OF assms(1)]
    by (auto simp: set_select_all)
qed

text \<open>
  C10, as the code has it. For every group name that the selectors quote as it is written, that
  is, one without double quote, backslash, line feed, form feed, carriage return and null
  character, the three queries return, and the fields that \<^verbatim>\<open>validate\<close> and
  \<^verbatim>\<open>resetValidation\<close> go through include every select and every textarea of the document,
  whatever group it is in (for \<^verbatim>\<open>validate\<close>, those that have a \<^verbatim>\<open>valid-if\<close>
  function); an input is among the fields only if it carries the group attribute with that name
  or lies inside an element that does.
\<close>

theorem fields_take_every_select_and_textarea:
  assumes "css_safe g"
  shows "\<exists>fs. group_fields h d g = Inr fs
           \<and> validate_fields h d g = Inr (filter (\<lambda>i. is_function (validIf (d ! i))) fs)
           \<and> (\<forall>i < length d. attached (d ! i)
                   \<and> (tagName (d ! i) = ''SELECT'' \<or> tagName (d ! i) = ''TEXTAREA'')
                 \<longrightarrow> i \<in> set fs)
           \<and> (\<forall>j \<in> set fs. tagName (d ! j) = ''INPUT''
                 \<longrightarrow> attribute_is d ''group'' g j \<or> inside d (attribute_is d ''group'' g) j)"
proof -
  obtain fs where fs: "group_fields h d g = Inr fs"
    using group_fields_plain [OF assms, of h d] by blast
  have v: "validate_fields h d g = Inr (filter (\<lambda>i. is_function (validIf (d ! i))) fs)"
    by (simp add: validate_fields_def fs)
  have a: "i \<in> set fs"
    if "i < length d"
      and "attached (d ! i) \<and> (tagName (d ! i) = ''SELECT'' \<or> tagName (d ! i) = ''TEXTAREA'')" for i
  proof -
    have "i \<in> {i. i < length d \<and> attached (d ! i)
        \<and> ((tag_in d [''INPUT''] i \<and> inside d (attribute_is d ''group'' g) i)
            \<or> tag_in d [''SELECT''] i \<or> tag_in d [''TEXTAREA''] i)}"
      using that by (auto simp: tag_in_def)
    then show ?thesis using set_group_fields_extra [OF assms fs] by blast
  qed
  have b: "attribute_is d ''group'' g j \<or> inside d (attribute_is d ''group'' g) j"
    if "j \<in> set fs" and "tagName (d ! j) = ''INPUT''" for j
    using group_fields_cases [OF assms fs that(1)] that(2)
    by (auto simp: tag_in_def inside_def)
  show ?thesis using fs v a b by blast
qed

theorem fields_take_every_select_and_textarea_witness:
  "css_safe ''signup''
   \<and> group_fields sample_host sample_page ''signup'' = Inr [1, 2]
   \<and> validate_fields sample_host sample_page ''signup'' = Inr [1, 2]
   \<and> 2 < length sample_page \<and> attached (sample_page ! 2) \<and> tagName (sample_page ! 2) = ''SELECT''
   \<and> getAttribute (sample_page ! 2) ''group'' = None \<and> ancestors sample_page 2 = []
   \<and> is_function (validIf (sample_page ! 2))
   \<and> tagName (sample_page ! 1) = ''INPUT''
   \<and> inside sample_page (attribute_is sample_page ''group'' ''signup'') 1
   \<and> tagName (sample_page ! 3) = ''INPUT''"
proof -
  have s: "css_safe ''signup''" by (simp add: css_safe_def)
  have a: "2 < length sample_page \<and> attached (sample_page ! 2) \<and> tagName (sample_page ! 2) = ''SELECT''
     \<and> getAttribute (sample_page ! 2) ''group'' = None \<and> is_function (validIf (sample_page ! 2))
     \<and> tagName (sample_page ! 1) = ''INPUT'' \<and> tagName (sample_page ! 3) = ''INPUT''"
    by (simp add: sample_page_def sample_input_def getAttribute_def is_function_def)
  have b: "ancestors sample_page 2 = []" by code_simp
  have c: "group_fields sample_host sample_page ''signup'' = Inr [1, 2]" by code_simp
  have d: "\<not> attribute_is sample_page ''group'' ''signup'' 1"
    by (simp add: sample_page_def sample_input_def getAttribute_def attribute_is_def)
  obtain fs where fs: "group_fields sample_host sample_page ''signup'' = Inr fs"
    and v: "validate_fields sample_host sample_page ''signup''
              = Inr (filter (\<lambda>i. is_function (validIf (sample_page ! i))) fs)"
    and i: "\<forall>j \<in> set fs. tagName (sample_page ! j) = ''INPUT''
              \<longrightarrow> attribute_is sample_page ''group'' ''signup'' j
                  \<or> inside sample_page (attribute_is sample_page ''group'' ''signup'') j"
    using fields_take_every_select_and_textarea [OF s, of sample_host sample_page] by blast
  have e: "fs = [1, 2]" using fs c by simp
  have f: "validate_fields sample_host sample_page ''signup'' = Inr [1, 2]"
    using v by (simp add: e sample_page_def sample_input_def is_function_def)
  have "1 \<in> set fs" by (simp add: e)
  then have g: "inside sample_page (attribute_is sample_page ''group'' ''signup'') 1"
    using i a d by blast
  show ?thesis using s c f a b g by (intro conjI) simp_all
qed

text \<open>
  C10 as stated, for every group name, fails. With a double quote as the group name the first
  selector reads \<^verbatim>\<open>[group="""]\<close>, which the browser rejects: \<^verbatim>\<open>validate\<close> and
  \<^verbatim>\<open>resetValidation\<close> throw the SyntaxError before they have looked at any field, the
  select of the page included.
\<close>

theorem quoted_group_name_selects_nothing:
  "\<not> css_safe ''\"''
   \<and> 2 < length (doc signup_world) \<and> attached (doc signup_world ! 2)
   \<and> tagName (doc signup_world ! 2) = ''SELECT''
   \<and> group_fields sample_host (doc signup_world) ''\"'' = Inl SyntaxError
   \<and> validate UMD sample_host ''\"'' signup_world = Throws SyntaxError signup_world
   \<and> validate Standalone sample_host ''\"'' signup_world = Throws SyntaxError signup_world
   \<and> resetValidation UMD sample_host ''\"'' signup_world = Throws SyntaxError signup_world
   \<and> resetValidation Standalone sample_host ''\"'' signup_world = Throws SyntaxError signup_world"
  by code_simp

subsection \<open>Sequencing and loops preserve a relation\<close>

lemma world_of_and_then:
  "world_of (and_then m f) = (case m of Returns a w \<Rightarrow> world_of (f a w) | Throws e w \<Rightarrow> w)"
  by (cases m) simp_all

lemma and_then_rel:
  assumes "R w (world_of m)"
    and "\<And>a w'. R w' (world_of (f a w'))"
    and "\<And>x y z. R x y \<Longrightarrow> R y z \<Longrightarrow> R x z"
  shows "R w (world_of (and_then m f))"
  using assms by (cases m) auto

lemma for_each_rel:
  assumes "\<And>x w'. R w' (world_of (f x w'))"
    and "\<And>x. R x x"
    and "\<And>x y z. R x y \<Longrightarrow> R y z \<Longrightarrow> R x z"
  shows "R w (world_of (for_each f xs w))"
proof (induction xs arbitrary: w)
  case Nil
  show ?case by (simp add: assms(2))
next
  case (Cons x xs)
  show ?case
  proof (cases "f x w")
    case (Returns a w1)
    have "R w w1" using assms(1)[of w x] Returns by simp
    moreover have "R w1 (world_of (for_each f xs w1))" by (rule Cons.IH)
    ultimately show ?thesis using Returns assms(3) by auto
  next
    case (Throws e w1)
    have "R w w1" using assms(1)[of w x] Throws by simp
    then show ?thesis using Throws by simp
  qed
qed

lemma same_element_refl: "same_element e e"
  by (simp add: same_element_def)

lemma same_element_trans: "same_element a b \<Longrightarrow> same_element b c \<Longrightarrow> same_element a c"
  by (simp add: same_element_def)

lemma same_values_refl: "same_values e e"
  by (simp add: same_values_def same_element_def)

lemma same_values_trans: "same_values a b \<Longrightarrow> same_values b c \<Longrightarrow> same_values a c"
  by (simp add: same_values_def same_element_def)

lemma same_binding_refl: "same_binding e e"
  by (simp add: same_binding_def same_values_def same_element_def)

lemma same_binding_trans: "same_binding a b \<Longrightarrow> same_binding b c \<Longrightarrow> same_binding a c"
  by (simp add: same_binding_def same_values_def same_element_def)

lemma same_binding_values: "same_binding a b \<Longrightarrow> same_values a b"
  by (simp add: same_binding_def)

lemma same_values_element: "same_values a b \<Longrightarrow> same_element a b"
  by (simp add: same_values_def)

lemma trace_grows_trans:
  assumes "\<exists>es. t2 = t1 @ es \<and> list_all P es" and "\<exists>es. t3 = t2 @ es \<and> list_all P es"
  shows "\<exists>es. t3 = t1 @ es \<and> list_all P es"
proof -
  obtain es where es: "t2 = t1 @ es" "list_all P es" using assms(1) by blast
  obtain es' where es': "t3 = t2 @ es'" "list_all P es'" using assms(2) by blast
  have "t3 = t1 @ (es @ es') \<and> list_all P (es @ es')" using es es' by simp
  then show ?thesis by blast
qed

lemma refreshed_refl: "refreshed w w"
  by (simp add: refreshed_def same_binding_refl)

lemma refreshed_trans:
  assumes "refreshed a b" and "refreshed b c"
  shows "refreshed a c"
proof -
  have t: "\<exists>es. trace c = trace a @ es \<and> list_all no_storage_effect es"
    using assms trace_grows_trans [of "trace b" "trace a" no_storage_effect "trace c"]
    by (simp add: refreshed_def)
  have d: "\<forall>i < length (doc a). same_binding (doc a ! i) (doc c ! i)"
  proof (intro allI impI)
    fix i assume i: "i < length (doc a)"
    have "same_binding (doc a ! i) (doc b ! i)" using assms(1) i by (simp add: refreshed_def)
    moreover have "same_binding (doc b ! i) (doc c ! i)"
      using assms i by (simp add: refreshed_def)
    ultimately show "same_binding (doc a ! i) (doc c ! i)" by (rule same_binding_trans)
  qed
  show ?thesis using assms t d by (simp add: refreshed_def)
qed

lemma rebound_refl: "rebound w w"
  by (simp add: rebound_def same_element_refl)

lemma rebound_trans:
  assumes "rebound a b" and "rebound b c"
  shows "rebound a c"
proof -
  have t: "\<exists>es. trace c = trace a @ es \<and> list_all no_storage_effect es"
    using assms trace_grows_trans [of "trace b" "trace a" no_storage_effect "trace c"]
    by (simp add: rebound_def)
  have d: "\<forall>i < length (doc a). same_element (doc a ! i) (doc c ! i)"
  proof (intro allI impI)
    fix i assume i: "i < length (doc a)"
    have "same_element (doc a ! i) (doc b ! i)" using assms(1) i by (simp add: rebound_def)
    moreover have "same_element (doc b ! i) (doc c ! i)"
      using assms i by (simp add: rebound_def)
    ultimately show "same_element (doc a ! i) (doc c ! i)" by (rule same_element_trans)
  qed
  show ?thesis using assms t d by (simp add: rebound_def)
qed

lemma refreshed_rebound: "refreshed w w' \<Longrightarrow> rebound w w'"
  by (simp add: refreshed_def rebound_def same_binding_def same_values_def)

subsection \<open>The console output of conditions\<close>

lemma single_condition_output:
  "list_all no_storage_effect (snd (evaluateSingleCondition b h d c))"
  unfolding evaluateSingleCondition_def Let_def
  by (simp add: no_storage_effect_def split: sum.split prod.split option.split build.split)

lemma every_condition_output:
  "list_all no_storage_effect (snd (every_condition b h d cs))"
proof (induction cs)
  case Nil
  show ?case by simp
next
  case (Cons c cs)
  obtain r out where s: "evaluateSingleCondition b h d (trim c) = (r, out)"
    by (cases "evaluateSingleCondition b h d (trim c)")
  have o: "list_all no_storage_effect out"
    using single_condition_output [of b h d "trim c"] s by simp
  obtain r' out' where e: "every_condition b h d cs = (r', out')"
    by (cases "every_condition b h d cs")
  have o': "list_all no_storage_effect out'" using Cons.IH e by simp
  show ?case using s e o o'
    by (cases r) (auto split: bool.splits)
qed

lemma some_part_output:
  "list_all no_storage_effect (snd (some_part b h d ps))"
proof (induction ps)
  case Nil
  show ?case by simp
next
  case (Cons p ps)
  obtain r out where s: "every_condition b h d (split_op ''&&'' p) = (r, out)"
    by (cases "every_condition b h d (split_op ''&&'' p)")
  have o: "list_all no_storage_effect out"
    using every_condition_output [of b h d "split_op ''&&'' p"] s by simp
  obtain r' out' where e: "some_part b h d ps = (r', out')"
    by (cases "some_part b h d ps")
  have o': "list_all no_storage_effect out'" using Cons.IH e by simp
  show ?case using s e o o'
    by (cases r) (auto split: bool.splits)
qed

lemma evaluateCondition_output:
  "list_all no_storage_effect (snd (evaluateCondition b h d c))"
  by (simp add: evaluateCondition_def some_part_output)

subsection \<open>Refreshing the document leaves store, storage and field values alone\<close>

lemmas same_defs = same_binding_def same_values_def same_element_def

lemma refreshed_emit: "list_all no_storage_effect es \<Longrightarrow> refreshed w (emit es w)"
  by (simp add: refreshed_def emit_def same_binding_refl)

lemma refreshed_update_element:
  assumes "\<And>e. same_binding e (f e)"
  shows "refreshed w (update_element i f w)"
proof -
  have "same_binding (doc w ! j) ((doc w)[i := f (doc w ! i)] ! j)" if "j < length (doc w)" for j
    using that assms by (cases "j = i") (simp_all add: same_binding_refl)
  then show ?thesis
    by (simp add: refreshed_def update_element_def)
qed

lemma refreshed_invoke: "refreshed w (world_of (invoke h f args w))"
  by (cases "call_fn h f (data w)")
     (simp_all add: invoke_def refreshed_emit no_storage_effect_def)


lemma refreshed_evaluate_in: "refreshed w (world_of (evaluate_in b h c w))"
proof -
  obtain r out where e: "evaluateCondition b h (data w) c = (r, out)"
    by (cases "evaluateCondition b h (data w) c")
  have "list_all no_storage_effect out"
    using evaluateCondition_output [of b h "data w" c] e by simp
  then show ?thesis using e
    by (cases r) (simp_all add: evaluate_in_def refreshed_emit refreshed_refl)
qed

lemma classList_toggle_Inr:
  "classList_toggle token force e = Inr e' \<Longrightarrow>
     e' = e\<lparr>classList := toggle_force token (JBool force) (classList e)\<rparr>"
  unfolding classList_toggle_def
  by (simp split: if_split_asm)

lemma toggle_class_cases:
  "toggle_class i token force w = Throws SyntaxError w
   \<or> toggle_class i token force w = Throws InvalidCharacterError w
   \<or> toggle_class i token force w =
       Returns () (update_element i (\<lambda>e. e\<lparr>classList := toggle_force token (JBool force) (classList e)\<rparr>) w)"
  unfolding toggle_class_def classList_toggle_def update_element_def
  by simp

lemma refreshed_toggle_class: "refreshed w (world_of (toggle_class i token force w))"
  using toggle_class_cases [of i token force w]
  by (auto simp: refreshed_refl same_defs intro!: refreshed_update_element)

lemma refreshed_show_element: "refreshed w (world_of (show_element b h i w))"
  unfolding show_element_def Let_def
proof (rule and_then_rel [where R = refreshed])
  show "refreshed w (world_of
      (case showIf (doc w ! i) of
         JFun f \<Rightarrow> invoke h f [] w
       | _ \<Rightarrow> if (case getAttribute (doc w ! i) ''show-if'' of Some c \<Rightarrow> c | None \<Rightarrow> []) \<noteq> []
              then evaluate_in b h (trim (case getAttribute (doc w ! i) ''show-if'' of Some c \<Rightarrow> c | None \<Rightarrow> [])) w
              else Returns (JBool False) w))"
    by (simp add: refreshed_invoke refreshed_evaluate_in refreshed_refl split: jsval.split)
next
  fix a w'
  show "refreshed w' (world_of (Returns () (update_element i
          (\<lambda>e. e\<lparr>style_display := (if truthy a then [] else ''none'')\<rparr>) w')))"
    by (simp add: refreshed_update_element same_defs)
next
  fix x y z assume "refreshed x y" "refreshed y z"
  then show "refreshed x z" by (rule refreshed_trans)
qed

lemma refreshed_updateVisibility: "refreshed w (world_of (updateVisibility b h w))"
  unfolding updateVisibility_def
proof (rule and_then_rel [where R = refreshed])
  show "refreshed w (world_of (for_each (show_element b h)
          (select_all (doc w) (has_attribute (doc w) ''show-if'')) w))"
    by (rule for_each_rel [where R = refreshed, OF refreshed_show_element refreshed_refl refreshed_trans])
next
  fix a w'
  show "refreshed w' (world_of (Returns () (emit [RequestFrame T_trackOnShowElements] w')))"
    by (simp add: refreshed_emit no_storage_effect_def)
next
  fix x y z assume "refreshed x y" "refreshed y z"
  then show "refreshed x z" by (rule refreshed_trans)
qed

lemma refreshed_apply_class_rule: "refreshed w (world_of (apply_class_rule b h i rule w))"
proof (cases "CHR ''?'' \<in> set rule")
  case True
  show ?thesis
  proof (cases "map trim (split_char CHR ''?'' rule)")
    case Nil
    then show ?thesis using True by (simp add: apply_class_rule_def refreshed_refl)
  next
    case (Cons condition rest)
    show ?thesis
    proof (cases rest)
      case Nil
      then show ?thesis using True Cons by (simp add: apply_class_rule_def refreshed_refl)
    next
      case (Cons classes rest')
      let ?cs = "map trim (split_char CHR '':'' classes)"
      let ?t = "hd ?cs"
      let ?f = "(case tl ?cs of [] \<Rightarrow> [] | f # _ \<Rightarrow> f)"
      have eq: "apply_class_rule b h i rule w =
         and_then (evaluate_in b h condition w)
           (\<lambda>m w1. and_then
              (if b = UMD \<and> ?t = [] then Returns () w1 else toggle_class i ?t (truthy m) w1)
              (\<lambda>_ w2. if ?f \<noteq> [] then toggle_class i ?f (\<not> truthy m) w2 else Returns () w2))"
        using True \<open>map trim (split_char CHR ''?'' rule) = condition # rest\<close> Cons
        by (simp add: apply_class_rule_def Let_def)
      have inner: "refreshed w1 (world_of (and_then
              (if b = UMD \<and> ?t = [] then Returns () w1 else toggle_class i ?t (truthy m) w1)
              (\<lambda>_ w2. if ?f \<noteq> [] then toggle_class i ?f (\<not> truthy m) w2 else Returns () w2)))" for m w1
      proof (rule and_then_rel [where R = refreshed])
        show "refreshed w1 (world_of (if b = UMD \<and> ?t = [] then Returns () w1 else toggle_class i ?t (truthy m) w1))"
          by (simp add: refreshed_refl refreshed_toggle_class)
      next
        fix a w'
        show "refreshed w' (world_of (if ?f \<noteq> [] then toggle_class i ?f (\<not> truthy m) w' else Returns () w'))"
          by (simp add: refreshed_refl refreshed_toggle_class)
      next
        fix x y z assume "refreshed x y" "refreshed y z"
        then show "refreshed x z" by (rule refreshed_trans)
      qed
      show ?thesis
        unfolding eq
        by (rule and_then_rel [where R = refreshed, OF refreshed_evaluate_in inner refreshed_trans])
    qed
  qed
next
  case False
  show ?thesis
  proof (cases "CHR '':'' \<in> set rule")
    case True
    then show ?thesis using False
      by (simp add: apply_class_rule_def refreshed_refl refreshed_toggle_class split: list.split)
  next
    case False
    then show ?thesis using \<open>CHR ''?'' \<notin> set rule\<close>
      by (simp add: apply_class_rule_def refreshed_refl)
  qed
qed

lemma refreshed_class_element: "refreshed w (world_of (class_element b h i w))"
proof (cases "getAttribute (doc w ! i) ''class-if''")
  case None
  then show ?thesis by (simp add: class_element_def refreshed_refl)
next
  case (Some attr)
  have "refreshed w (world_of (for_each (apply_class_rule b h i) (class_rules b attr) w))"
    by (rule for_each_rel [where R = refreshed, OF refreshed_apply_class_rule refreshed_refl refreshed_trans])
  then show ?thesis using Some by (simp add: class_element_def)
qed

lemma refreshed_updateClasses: "refreshed w (world_of (updateClasses b h w))"
  unfolding updateClasses_def
  by (rule for_each_rel [where R = refreshed, OF refreshed_class_element refreshed_refl refreshed_trans])

lemma refreshed_refresh:
  "refreshed w (world_of (and_then (updateVisibility b h w) (\<lambda>_. updateClasses b h)))"
  by (rule and_then_rel [where R = refreshed, OF refreshed_updateVisibility refreshed_updateClasses
        refreshed_trans])

subsection \<open>updateDOM writes to the document only\<close>

lemma rebound_emit: "list_all no_storage_effect es \<Longrightarrow> rebound w (emit es w)"
  by (simp add: rebound_def emit_def same_element_refl)

lemma rebound_update_element:
  assumes "\<And>e. same_element e (f e)"
  shows "rebound w (update_element i f w)"
proof -
  have "same_element (doc w ! j) ((doc w)[i := f (doc w ! i)] ! j)" if "j < length (doc w)" for j
    using that assms by (cases "j = i") (simp_all add: same_element_refl)
  then show ?thesis
    by (simp add: rebound_def update_element_def)
qed

lemma rebound_then_emit:
  assumes "rebound w w'" and "list_all no_storage_effect es"
  shows "rebound w (emit es w')"
  by (rule rebound_trans [OF assms(1) rebound_emit [OF assms(2)]])

lemma rebound_set_textContent: "rebound w (set_textContent i text w)"
  by (simp add: rebound_def set_textContent_def same_element_def emit_def no_storage_effect_def)

lemma rebound_assign_checked: "rebound w (assign_checked i c w)"
  unfolding assign_checked_def
  by (rule rebound_then_emit [OF rebound_update_element])
     (simp_all add: same_element_def no_storage_effect_def)

lemma rebound_assign_field: "rebound w (world_of (assign_field h i text w))"
proof (cases "assign_value h (doc w ! i) text")
  case None
  then show ?thesis by (simp add: assign_field_def rebound_emit no_storage_effect_def)
next
  case (Some t)
  have "rebound w (emit [SetValue i text] (update_element i (\<lambda>e. e\<lparr>el_value := t\<rparr>) w))"
    by (rule rebound_then_emit [OF rebound_update_element])
       (simp_all add: same_element_def no_storage_effect_def)
  then show ?thesis using Some by (simp add: assign_field_def)
qed

lemma rebound_bind_element: "rebound w (world_of (bind_element b h v i w))"
  by (simp add: bind_element_def Let_def rebound_assign_field rebound_set_textContent
        rebound_assign_checked)

lemma rebound_updateDOM: "rebound w (world_of (updateDOM b h key v w))"
proof -
  have loop: "rebound w (world_of (and_then (for_each (bind_element b h v) is w)
      (\<lambda>_ w'. Returns ()
         (emit [RequestFrame T_updateVisibility, RequestFrame T_updateClasses] w'))))" for "is"
  proof (rule and_then_rel [where R = rebound])
    show "rebound w (world_of (for_each (bind_element b h v) is w))"
      by (rule for_each_rel [where R = rebound, OF rebound_bind_element rebound_refl rebound_trans])
  next
    fix a w'
    show "rebound w' (world_of (Returns ()
            (emit [RequestFrame T_updateVisibility, RequestFrame T_updateClasses] w')))"
      by (simp add: rebound_emit no_storage_effect_def)
  next
    fix x y z assume "rebound x y" "rebound y z"
    then show "rebound x z" by (rule rebound_trans)
  qed
  show ?thesis
    unfolding updateDOM_def
    by (simp add: rebound_refl loop split: sum.split)
qed

lemma rebound_refresh:
  "rebound w (world_of (and_then (updateVisibility b h w) (\<lambda>_. updateClasses b h)))"
  by (rule refreshed_rebound [OF refreshed_refresh])

lemma rebound_render:
  "rebound w (world_of (and_then (updateDOM b h key v w)
      (\<lambda>_ w2. and_then (updateVisibility b h w2) (\<lambda>_. updateClasses b h))))"
proof (rule and_then_rel [where R = rebound])
  show "rebound w (world_of (updateDOM b h key v w))" by (rule rebound_updateDOM)
next
  fix a w'
  show "rebound w' (world_of (and_then (updateVisibility b h w') (\<lambda>_. updateClasses b h)))"
    by (rule rebound_refresh)
next
  fix x y z assume "rebound x y" "rebound y z"
  then show "rebound x z" by (rule rebound_trans)
qed

subsection \<open>The callback of the store\<close>

lemma getItem_setItem: "getItem (setItem items k t) k' = (if k' = k then Some t else getItem items k')"
  by (simp add: getItem_def setItem_def update_conv')

lemma store_state_cases:
  "(JSON_stringify h (data w) = None \<and> store_state h w = (Some TypeError, w))
   \<or> (\<exists>text. JSON_stringify h (data w) = Some text \<and> storage_refuses h (storage w) text
         \<and> store_state h w = (Some QuotaExceededError, emit [StorageSet ''state'' text] w))
   \<or> (\<exists>text. JSON_stringify h (data w) = Some text \<and> \<not> storage_refuses h (storage w) text
         \<and> store_state h w
             = (None, emit [StorageSet ''state'' text] (w\<lparr>storage := setItem (storage w) ''state'' text\<rparr>)))"
  by (cases "JSON_stringify h (data w)") (simp_all add: store_state_def)

lemma store_state_keeps:
  "data (snd (store_state h w)) = data w \<and> doc (snd (store_state h w)) = doc w
   \<and> subscribers (snd (store_state h w)) = subscribers w
   \<and> location (snd (store_state h w)) = location w
   \<and> has_instance (snd (store_state h w)) = has_instance w
   \<and> script_done (snd (store_state h w)) = script_done w"
  using store_state_cases [of h w] by (auto simp: emit_def)

lemma store_state_stored:
  assumes "JSON_stringify h (data w) = Some text" and "\<not> storage_refuses h (storage w) text"
  shows "storage (snd (store_state h w)) = setItem (storage w) ''state'' text"
  using assms by (simp add: store_state_def emit_def)

lemma store_state_trace:
  assumes "JSON_stringify h (data w) = Some text"
  shows "trace (snd (store_state h w)) = trace w @ [StorageSet ''state'' text]"
  using assms by (simp add: store_state_def emit_def)

lemma rebound_updateLocalStorage:
  "rebound (snd (store_state h w)) (world_of (updateLocalStorage b h key value w))"
proof (cases "store_state h w")
  case (Pair failure w1)
  show ?thesis
  proof (cases "b = Standalone \<and> failure \<noteq> None")
    case True
    then show ?thesis using Pair
      by (auto simp: updateLocalStorage_def rebound_refl)
  next
    case False
    then have "updateLocalStorage b h key value w
        = and_then (updateDOM b h key value w1)
            (\<lambda>_ w2. and_then (updateVisibility b h w2) (\<lambda>_. updateClasses b h))"
      using Pair by (cases b; cases failure) (simp_all add: updateLocalStorage_def)
    then show ?thesis using Pair by (simp add: rebound_render)
  qed
qed

lemma updateLocalStorage_data: "data (world_of (updateLocalStorage b h key value w)) = data w"
  using rebound_updateLocalStorage [of h w b key "value"] store_state_keeps [of h w]
  by (simp add: rebound_def)

lemma updateLocalStorage_storage:
  "storage (world_of (updateLocalStorage b h key value w)) = storage (snd (store_state h w))"
  using rebound_updateLocalStorage [of h w b key "value"] by (simp add: rebound_def)

lemma updateLocalStorage_trace:
  "\<exists>es. trace (world_of (updateLocalStorage b h key value w)) = trace (snd (store_state h w)) @ es
       \<and> list_all no_storage_effect es"
  using rebound_updateLocalStorage [of h w b key "value"] by (simp add: rebound_def)

lemma write_data_changed:
  assumes "\<not> strict_equals (obj_get (data w) key) value"
  shows "write_data b h key value w
           = updateLocalStorage b h key value (w\<lparr>data := obj_put (data w) key value\<rparr>)"
  using assms by (simp add: write_data_def reactive_set_def)

lemma write_data_unchanged:
  assumes "strict_equals (obj_get (data w) key) value"
  shows "write_data b h key value w = Returns () w"
  using assms by (simp add: write_data_def reactive_set_def)

lemma obj_get_put:
  "k \<noteq> ''__proto__'' \<Longrightarrow> obj_get (obj_put obj k v) k' = (if k' = k then v else obj_get obj k')"
  by (simp add: obj_get_def obj_put_def update_conv')

lemma obj_get_put_other: "k' \<noteq> k \<Longrightarrow> obj_get (obj_put obj k v) k' = obj_get obj k'"
  by (simp add: obj_get_def obj_put_def update_conv')

text \<open>
  C2, as the code has it. A property write whose value is not strictly equal to the one the key
  holds invokes the callback registered at creation with that key and value, after the value
  has been assigned to the state object, where every key but \<^verbatim>\<open>__proto__\<close> then holds it.
  The callback of the State singleton serialises the whole state object and, with the text the
  serialisation gives, calls \<^verbatim>\<open>setItem\<close> under the key \<^verbatim>\<open>"state"\<close>; the storage holds the
  text afterwards unless it has refused it. A write of a value strictly equal to the one the key
  holds invokes no callback: the proxy returns with the world as it was.
\<close>

theorem changing_write_calls_back_and_stores:
  "(\<not> strict_equals (obj_get (data w) key) value \<longrightarrow>
      reactive_set callback key value w
        = callback key value (w\<lparr>data := obj_put (data w) key value\<rparr>)
      \<and> write_data b h key value w
        = updateLocalStorage b h key value (w\<lparr>data := obj_put (data w) key value\<rparr>)
      \<and> (key \<noteq> ''__proto__'' \<longrightarrow> obj_get (data (world_of (write_data b h key value w))) key = value)
      \<and> (\<forall>text. JSON_stringify h (obj_put (data w) key value) = Some text \<longrightarrow>
            (\<exists>es. trace (world_of (write_data b h key value w))
                   = trace w @ StorageSet ''state'' text # es)
            \<and> (\<not> storage_refuses h (storage w) text \<longrightarrow>
                 getItem (storage (world_of (write_data b h key value w))) ''state'' = Some text)))
   \<and> (strict_equals (obj_get (data w) key) value \<longrightarrow>
        reactive_set callback key value w = Returns () w
        \<and> write_data b h key value w = Returns () w)"
proof -
  let ?w0 = "w\<lparr>data := obj_put (data w) key value\<rparr>"
  let ?w' = "world_of (write_data b h key value w)"
  have a: "reactive_set callback key value w = callback key value ?w0"
    if "\<not> strict_equals (obj_get (data w) key) value"
    using that by (simp add: reactive_set_def)
  have b: "write_data b h key value w = updateLocalStorage b h key value ?w0"
    if "\<not> strict_equals (obj_get (data w) key) value"
    using that by (rule write_data_changed)
  have c: "obj_get (data ?w') key = value"
    if "\<not> strict_equals (obj_get (data w) key) value" and "key \<noteq> ''__proto__''"
    using that by (simp add: b updateLocalStorage_data obj_get_put)
  have d: "\<exists>es. trace ?w' = trace w @ StorageSet ''state'' t # es"
    if ne: "\<not> strict_equals (obj_get (data w) key) value"
      and t: "JSON_stringify h (obj_put (data w) key value) = Some t" for t
  proof -
    have t0: "JSON_stringify h (data ?w0) = Some t" using t by simp
    obtain es where es: "trace (world_of (updateLocalStorage b h key value ?w0))
        = trace (snd (store_state h ?w0)) @ es"
      using updateLocalStorage_trace [of b h key "value" ?w0] by blast
    have "trace ?w' = trace w @ StorageSet ''state'' t # es"
      using es store_state_trace [OF t0] by (simp add: b [OF ne])
    then show ?thesis by blast
  qed
  have e: "getItem (storage ?w') ''state'' = Some t"
    if ne: "\<not> strict_equals (obj_get (data w) key) value"
      and t: "JSON_stringify h (obj_put (data w) key value) = Some t"
      and r: "\<not> storage_refuses h (storage w) t" for t
  proof -
    have t0: "JSON_stringify h (data ?w0) = Some t" using t by simp
    have r0: "\<not> storage_refuses h (storage ?w0) t" using r by simp
    show ?thesis
      using store_state_stored [OF t0 r0]
      by (simp add: b [OF ne] updateLocalStorage_storage getItem_setItem)
  qed
  have f: "reactive_set callback key value w = Returns () w"
    if "strict_equals (obj_get (data w) key) value"
    using that by (simp add: reactive_set_def)
  have g: "write_data b h key value w = Returns () w"
    if "strict_equals (obj_get (data w) key) value"
    using that by (rule write_data_unchanged)
  show ?thesis
  proof (intro conjI impI allI)
    assume ne: "\<not> strict_equals (obj_get (data w) key) value"
    show "reactive_set callback key value w = callback key value ?w0" by (rule a [OF ne])
    show "write_data b h key value w = updateLocalStorage b h key value ?w0" by (rule b [OF ne])
    show "obj_get (data ?w') key = value" if "key \<noteq> ''__proto__''"
      by (rule c [OF ne that])
    show "\<exists>es. trace ?w' = trace w @ StorageSet ''state'' t # es"
      if "JSON_stringify h (obj_put (data w) key value) = Some t" for t
      by (rule d [OF ne that])
    show "getItem (storage ?w') ''state'' = Some t"
      if "JSON_stringify h (obj_put (data w) key value) = Some t"
        and "\<not> storage_refuses h (storage w) t" for t
      by (rule e [OF ne that])
  next
    assume eq: "strict_equals (obj_get (data w) key) value"
    show "reactive_set callback key value w = Returns () w" by (rule f [OF eq])
    show "write_data b h key value w = Returns () w" by (rule g [OF eq])
  qed
qed

theorem changing_write_calls_back_and_stores_witness:
  "\<not> strict_equals (obj_get (data sample_world) ''name'') (JStr ''Bob'')
   \<and> JSON_stringify sample_host (obj_put (data sample_world) ''name'' (JStr ''Bob'')) = Some ''name;route;''
   \<and> \<not> storage_refuses sample_host (storage sample_world) ''name;route;''
   \<and> obj_get (data (world_of (write_data UMD sample_host ''name'' (JStr ''Bob'') sample_world))) ''name''
       = JStr ''Bob''
   \<and> getItem (storage (world_of (write_data UMD sample_host ''name'' (JStr ''Bob'') sample_world))) ''state''
       = Some ''name;route;''
   \<and> strict_equals (obj_get (data sample_world) ''name'') (JStr ''Ada'')
   \<and> write_data UMD sample_host ''name'' (JStr ''Ada'') sample_world = Returns () sample_world"
proof -
  have h: "\<not> strict_equals (obj_get (data sample_world) ''name'') (JStr ''Bob'')"
    by (simp add: sample_world_def obj_get_def strict_equals_def)
  have s: "JSON_stringify sample_host (obj_put (data sample_world) ''name'' (JStr ''Bob'')) = Some ''name;route;''"
    by (simp add: sample_host_def sample_world_def obj_put_def)
  have r: "\<not> storage_refuses sample_host (storage sample_world) ''name;route;''"
    by (simp add: sample_host_def)
  have k: "''name'' \<noteq> ''__proto__''" by simp
  have e: "strict_equals (obj_get (data sample_world) ''name'') (JStr ''Ada'')"
    by (simp add: sample_world_def obj_get_def strict_equals_def)
  note t = changing_write_calls_back_and_stores
      [of sample_world "''name''" "JStr ''Bob''" "updateLocalStorage UMD sample_host" UMD sample_host]
  note u = changing_write_calls_back_and_stores
      [of sample_world "''name''" "JStr ''Ada''" "updateLocalStorage UMD sample_host" UMD sample_host]
  have a: "obj_get (data (world_of (write_data UMD sample_host ''name'' (JStr ''Bob'') sample_world))) ''name''
          = JStr ''Bob''"
    using t h k by blast
  have b: "getItem (storage (world_of (write_data UMD sample_host ''name'' (JStr ''Bob'') sample_world))) ''state''
          = Some ''name;route;''"
    using t h s r by blast
  have c: "write_data UMD sample_host ''name'' (JStr ''Ada'') sample_world = Returns () sample_world"
    using u e by blast
  show ?thesis using h s r a b e c by (intro conjI)
qed

text \<open>
  C2 as stated, for every key and value, fails. A write of the value the key already holds
  invokes no callback and writes nothing to the storage. And where the storage is full, a write
  that changes the value does invoke the callback, which calls \<^verbatim>\<open>setItem\<close>, but nothing is
  stored: the UMD build goes on without a record, the standalone build throws.
\<close>

theorem equal_write_calls_nothing:
  "obj_get (data sample_world) ''name'' = JStr ''Ada''
   \<and> trace (world_of (write_data Standalone sample_host ''name'' (JStr ''Ada'') sample_world)) = []
   \<and> getItem (storage (world_of (write_data Standalone sample_host ''name'' (JStr ''Ada'') sample_world)))
        ''state'' = None
   \<and> trace (world_of (write_data UMD full_host ''name'' (JStr ''Bob'') sample_world))
       = [StorageSet ''state'' ''name;route;'', SetValue 0 ''Bob'', RequestFrame T_updateVisibility,
          RequestFrame T_updateClasses, RequestFrame T_trackOnShowElements]
   \<and> getItem (storage (world_of (write_data UMD full_host ''name'' (JStr ''Bob'') sample_world)))
        ''state'' = None
   \<and> write_data Standalone full_host ''name'' (JStr ''Bob'') sample_world
       = Throws QuotaExceededError
           (emit [StorageSet ''state'' ''name;route;'']
              (sample_world\<lparr>data := [(''name'', JStr ''Bob''), (''route'', JStr ''/'')]\<rparr>))"
  by code_simp

subsection \<open>Last write wins, serialised wholesale\<close>














subsection \<open>A stored record that is not JSON\<close>

lemma stored_data_malformed:
  assumes "JSON_parse h s = None"
  shows "stored_data Standalone h (Some s) = Inl SyntaxError"
    and "stored_data UMD h (Some s) = Inr []"
  using assms by (simp_all add: stored_data_def)

lemma standalone_constructor_malformed:
  assumes "\<not> has_instance w" and "getItem (storage w) ''state'' = Some s" and "JSON_parse h s = None"
  shows "construct Standalone h w = Throws SyntaxError (emit [StorageGet ''state''] w)"
  using assms by (simp add: construct_def stored_data_malformed)

lemma write_data_data:
  "data (world_of (write_data b h key v w))
     = (if strict_equals (obj_get (data w) key) v then data w else obj_put (data w) key v)"
  by (simp add: write_data_changed write_data_unchanged updateLocalStorage_data)

lemma initPWA_UMD_data:
  assumes "obj_get (data w) ''showInstallButton'' = JBool False"
  shows "data (world_of (initPWA UMD h w)) = data w"
proof -
  have eq: "write_data UMD h ''showInstallButton'' (JBool False) w = Returns () w"
    using assms by (simp add: write_data_unchanged strict_equals_def)
  show ?thesis
    by (simp add: initPWA_def eq emit_def)
qed

lemma umd_constructor_malformed:
  assumes "\<not> has_instance w" and "getItem (storage w) ''state'' = Some s" and "JSON_parse h s = None"
  shows "data (world_of (construct UMD h w))
           = [(''pwaInstallPrompt'', JNull), (''showInstallButton'', JBool False),
              (''route'', JStr (location w))]"
proof -
  let ?initial = "[(''pwaInstallPrompt'', JNull), (''showInstallButton'', JBool False)]"
  let ?w2 = "emit [AddListener ''change'']
               ((emit [StorageGet ''state''] w)\<lparr>data := ?initial, subscribers := [], has_instance := True,
                                                 script_done := False\<rparr>)"
  let ?final = "[(''pwaInstallPrompt'', JNull), (''showInstallButton'', JBool False),
                 (''route'', JStr (location w))]"
  have loc: "location ?w2 = location w" by (simp add: emit_def)
  have c: "construct UMD h w =
      and_then (write_data UMD h ''route'' (JStr (location w)) ?w2)
        (\<lambda>_ w3. and_then (initPWA UMD h w3)
           (\<lambda>_ w4. Returns () (emit [RequestFrame T_initialRender] w4)))"
    using assms by (simp add: construct_def stored_data_malformed obj_put_def Let_def loc)
  have d: "data (world_of (write_data UMD h ''route'' (JStr (location w)) ?w2)) = ?final"
    by (simp add: write_data_data emit_def obj_get_def obj_put_def object_prototype_def
        strict_equals_def)
  show ?thesis
  proof (cases "write_data UMD h ''route'' (JStr (location w)) ?w2")
    case (Throws e w3)
    then show ?thesis using d by (simp add: c)
  next
    case (Returns u w3)
    then have d3: "data w3 = ?final" using d by simp
    then have i: "data (world_of (initPWA UMD h w3)) = ?final"
      by (simp add: initPWA_UMD_data obj_get_def)
    show ?thesis
      using Returns i
      by (cases "initPWA UMD h w3") (simp_all add: c emit_def)
  qed
qed

text \<open>
  C1 says that a stored record that is not JSON is discarded and the store starts from an empty
  object. The UMD build does so (\<open>umd_constructor_malformed\<close>): the state object holds the
  two install keys and the route, nothing else. The standalone build calls \<^verbatim>\<open>JSON.parse\<close>
  outside any \<^verbatim>\<open>try\<close>: for every such record its constructor throws the SyntaxError
  (\<open>standalone_constructor_malformed\<close>), here on the record \<^verbatim>\<open>{not json\<close>, and no store
  exists afterwards.
\<close>

theorem standalone_constructor_throws_on_malformed_state:
  "getItem (storage malformed_world) ''state'' = Some ''{not json''
   \<and> JSON_parse sample_host ''{not json'' = None
   \<and> construct Standalone sample_host malformed_world
       = Throws SyntaxError (emit [StorageGet ''state''] malformed_world)
   \<and> data (world_of (construct Standalone sample_host malformed_world)) = []
   \<and> \<not> has_instance (world_of (construct Standalone sample_host malformed_world))"
  by (simp add: construct_def stored_data_def malformed_world_def sample_world_def sample_host_def
      getItem_def emit_def)

subsection \<open>Conditions: the structure of the expression\<close>

lemma current_route_returns:
  assumes "b = UMD \<or> (\<exists>r. obj_get d ''route'' = JStr r)"
  shows "\<exists>r. current_route b h d = Inr r"
  using assms by (cases b) (auto simp: current_route_def Let_def)

lemma single_condition_returns:
  assumes "b = UMD \<or> (\<exists>r. obj_get d ''route'' = JStr r)"
  shows "\<not> isl (fst (evaluateSingleCondition b h d c))"
proof -
  obtain r where r: "current_route b h d = Inr r"
    using current_route_returns [OF assms] by blast
  show ?thesis
    unfolding evaluateSingleCondition_def Let_def r
    by (simp split: prod.split option.split build.split)
qed

lemma every_condition_value:
  assumes "\<forall>andPart \<in> set cs. \<not> isl (fst (evaluateSingleCondition b h d (trim andPart)))"
  shows "fst (every_condition b h d cs)
           = Inr (\<forall>andPart \<in> set cs. fst (evaluateSingleCondition b h d (trim andPart)) = Inr True)"
  using assms
proof (induction cs)
  case Nil
  show ?case by simp
next
  case (Cons c cs)
  obtain r out where s: "evaluateSingleCondition b h d (trim c) = (r, out)"
    by (cases "evaluateSingleCondition b h d (trim c)")
  obtain v where r: "r = Inr v" using Cons.prems s by (cases r) auto
  obtain r' out' where e: "every_condition b h d cs = (r', out')"
    by (cases "every_condition b h d cs")
  have ih: "r' = Inr (\<forall>andPart \<in> set cs. fst (evaluateSingleCondition b h d (trim andPart)) = Inr True)"
    using Cons.IH Cons.prems e by simp
  show ?case
    by (cases v) (simp_all add: s r e ih)
qed

lemma some_part_value:
  assumes "\<forall>orPart \<in> set ps. \<forall>andPart \<in> set (split_op ''&&'' orPart).
             \<not> isl (fst (evaluateSingleCondition b h d (trim andPart)))"
  shows "fst (some_part b h d ps)
           = Inr (\<exists>orPart \<in> set ps. \<forall>andPart \<in> set (split_op ''&&'' orPart).
                    fst (evaluateSingleCondition b h d (trim andPart)) = Inr True)"
  using assms
proof (induction ps)
  case Nil
  show ?case by simp
next
  case (Cons p ps)
  obtain r out where s: "every_condition b h d (split_op ''&&'' p) = (r, out)"
    by (cases "every_condition b h d (split_op ''&&'' p)")
  have r: "r = Inr (\<forall>andPart \<in> set (split_op ''&&'' p).
                      fst (evaluateSingleCondition b h d (trim andPart)) = Inr True)"
    using every_condition_value [of "split_op ''&&'' p" b h d] Cons.prems s by simp
  obtain r' out' where e: "some_part b h d ps = (r', out')"
    by (cases "some_part b h d ps")
  have ih: "r' = Inr (\<exists>orPart \<in> set ps. \<forall>andPart \<in> set (split_op ''&&'' orPart).
                    fst (evaluateSingleCondition b h d (trim andPart)) = Inr True)"
    using Cons.IH Cons.prems e by simp
  define v where "v = (\<forall>andPart \<in> set (split_op ''&&'' p).
                      fst (evaluateSingleCondition b h d (trim andPart)) = Inr True)"
  have rv: "r = Inr v" using r v_def by simp
  have goal: "fst (some_part b h d (p # ps))
           = Inr (v \<or> (\<exists>orPart \<in> set ps. \<forall>andPart \<in> set (split_op ''&&'' orPart).
                    fst (evaluateSingleCondition b h d (trim andPart)) = Inr True))"
    by (cases v) (simp_all add: s rv e ih)
  then show ?case by (simp add: v_def)
qed

text \<open>The parts of a split are what lies between the separators: none contains the operator.\<close>

lemma includes_str_iff:
  "includes_str s sub \<longleftrightarrow> (\<exists>k \<le> length s. startsWith (drop k s) sub)"
proof (induction s)
  case Nil
  show ?case by (auto simp: startsWith_def)
next
  case (Cons c cs)
  show ?case
  proof
    assume "includes_str (c # cs) sub"
    then consider "startsWith (c # cs) sub" | "includes_str cs sub" by auto
    then show "\<exists>k \<le> length (c # cs). startsWith (drop k (c # cs)) sub"
    proof cases
      case 1
      then have "startsWith (drop 0 (c # cs)) sub" by simp
      then show ?thesis by blast
    next
      case 2
      then obtain k where "k \<le> length cs" "startsWith (drop k cs) sub" using Cons.IH by blast
      then have "Suc k \<le> length (c # cs) \<and> startsWith (drop (Suc k) (c # cs)) sub" by simp
      then show ?thesis by blast
    qed
  next
    assume "\<exists>k \<le> length (c # cs). startsWith (drop k (c # cs)) sub"
    then obtain k where k: "k \<le> length (c # cs)" "startsWith (drop k (c # cs)) sub" by blast
    show "includes_str (c # cs) sub"
    proof (cases k)
      case 0
      then show ?thesis using k by simp
    next
      case (Suc j)
      then have "j \<le> length cs \<and> startsWith (drop j cs) sub" using k by simp
      then show ?thesis using Cons.IH by auto
    qed
  qed
qed

lemma startsWith_append:
  assumes "startsWith (drop k xs) op" and "op \<noteq> []"
  shows "startsWith (drop k (xs @ ys)) op"
proof -
  have t: "take (length op) (drop k xs) = op" using assms(1) by (simp add: startsWith_def)
  then have "length (take (length op) (drop k xs)) = length op" by simp
  then have l: "length op \<le> length xs - k" by simp
  with assms(2) have "k \<le> length xs" by (cases "k \<le> length xs") auto
  then have "drop k (xs @ ys) = drop k xs @ ys" by simp
  then show ?thesis using t l by (simp add: startsWith_def)
qed

lemma sep_len_None:
  assumes "sep_len op t = None" and "op \<noteq> []" and "\<not> is_space (hd op)"
  shows "\<not> startsWith t op"
proof
  assume s: "startsWith t op"
  then have "t \<noteq> []" using assms(2) by (auto simp: startsWith_def)
  moreover have "hd t = hd op"
    using s assms(2) by (metis startsWith_def hd_take length_greater_0_conv)
  ultimately have "takeWhile is_space t = [] \<and> dropWhile is_space t = t"
    using assms(3) by (cases t) auto
  then show False using assms(1) s by (simp add: sep_len_def Let_def)
qed

lemma split_go_parts:
  assumes "op \<noteq> []" and "\<not> is_space (hd op)"
    and "\<forall>k < length acc. \<not> startsWith (drop k (rev acc @ s)) op"
    and "0 < skip \<longrightarrow> acc = []"
  shows "\<forall>part \<in> set (split_go op skip acc s). \<not> includes_str part op"
  using assms
proof (induction op skip acc s rule: split_go.induct)
  case (1 op skip acc)
  show ?case
  proof (intro ballI notI)
    fix part assume "part \<in> set (split_go op skip acc [])" and i: "includes_str part op"
    then have p: "part = rev acc" by simp
    from i obtain k where k: "k \<le> length part" "startsWith (drop k part) op"
      using includes_str_iff by blast
    have "k < length acc"
    proof (rule ccontr)
      assume "\<not> k < length acc"
      then have "drop k part = []" using p by simp
      then show False using k(2) "1.prems"(1) by (simp add: startsWith_def)
    qed
    then show False using "1.prems"(3) k(2) p by simp
  qed
next
  case (2 op k acc c cs)
  then show ?case by simp
next
  case (3 op acc c cs)
  note ne = "3.prems"(1) and sp = "3.prems"(2) and inv0 = "3.prems"(3)
  show ?case
  proof (cases "sep_len op (c # cs)")
    case (Some n)
    have head: "\<not> includes_str (rev acc) op"
    proof
      assume "includes_str (rev acc) op"
      then obtain k where k: "k \<le> length (rev acc)" "startsWith (drop k (rev acc)) op"
        using includes_str_iff by blast
      have kl: "k < length acc"
      proof (rule ccontr)
        assume "\<not> k < length acc"
        then have "drop k (rev acc) = []" by simp
        then show False using k(2) ne by (simp add: startsWith_def)
      qed
      have "startsWith (drop k (rev acc @ c # cs)) op"
        by (rule startsWith_append [OF k(2) ne])
      then show False using inv0 kl by blast
    qed
    have rest: "\<forall>part \<in> set (split_go op (n - 1) [] cs). \<not> includes_str part op"
      using "3.IH"(2) [OF Some ne sp] by simp
    show ?thesis using Some head rest by simp
  next
    case None
    have here: "\<not> startsWith (c # cs) op"
      by (rule sep_len_None [OF None ne sp])
    have inv: "\<forall>k < length (c # acc). \<not> startsWith (drop k (rev (c # acc) @ cs)) op"
    proof (intro allI impI)
      fix k assume "k < length (c # acc)"
      then consider "k < length acc" | "k = length acc" by fastforce
      then show "\<not> startsWith (drop k (rev (c # acc) @ cs)) op"
      proof cases
        case 1
        then show ?thesis using inv0 by simp
      next
        case 2
        then show ?thesis using here by simp
      qed
    qed
    show ?thesis using None "3.IH"(1) [OF None ne sp inv] by simp
  qed
qed

lemma split_op_parts:
  assumes "op \<noteq> []" and "\<not> is_space (hd op)"
  shows "\<forall>part \<in> set (split_op op s). \<not> includes_str part op"
  unfolding split_op_def
  by (rule split_go_parts [OF assms]) simp_all

text \<open>
  \<^verbatim>\<open>evaluateCondition\<close> splits its argument at \<^verbatim>\<open>||\<close> and each part at \<^verbatim>\<open>&&\<close> (the
  parts hold no separator of their own: \<open>split_op_parts\<close>), so \<^verbatim>\<open>&&\<close> binds tighter than
  \<^verbatim>\<open>||\<close>. When the single conditions of the expression evaluate without an exception, it
  returns, and what it returns is true exactly if at least one of the parts separated by
  \<^verbatim>\<open>||\<close> has all of its single conditions, separated by \<^verbatim>\<open>&&\<close>, true under the
  values of the store.
\<close>

lemma or_of_ands_unless_thrown:
  assumes "\<forall>orPart \<in> set (split_op ''||'' condition). \<forall>andPart \<in> set (split_op ''&&'' orPart).
             \<not> isl (fst (evaluateSingleCondition b h d (trim andPart)))"
  shows "fst (evaluateCondition b h d condition)
           = Inr (\<exists>orPart \<in> set (split_op ''||'' condition).
                    \<forall>andPart \<in> set (split_op ''&&'' orPart).
                      fst (evaluateSingleCondition b h d (trim andPart)) = Inr True)"
  using assms by (simp add: evaluateCondition_def some_part_value)

text \<open>
  In the UMD build no single condition throws, whatever the store holds, and in the standalone
  build none does while the key \<^verbatim>\<open>route\<close> holds a string: there the value of
  \<^verbatim>\<open>evaluateCondition\<close> is the disjunction of the conjunctions.
\<close>

lemma or_of_ands_umd_or_string_route:
  assumes "b = UMD \<or> (\<exists>r. obj_get d ''route'' = JStr r)"
  shows "fst (evaluateCondition b h d condition)
           = Inr (\<exists>orPart \<in> set (split_op ''||'' condition).
                    \<forall>andPart \<in> set (split_op ''&&'' orPart).
                      fst (evaluateSingleCondition b h d (trim andPart)) = Inr True)"
  by (rule or_of_ands_unless_thrown) (simp add: single_condition_returns [OF assms])

text \<open>
  C5 says that \<^verbatim>\<open>evaluateCondition\<close> returns true exactly if at least one of the parts
  separated by \<^verbatim>\<open>||\<close> has all of its conditions true. The UMD build does so
  (\<open>or_of_ands_umd_or_string_route\<close>): its route tests read the route through
  \<^verbatim>\<open>String(State.get("route") || "")\<close>. The route tests of the standalone build call
  \<^verbatim>\<open>startsWith\<close> on the value of the key itself. After \<^verbatim>\<open>State.reset({name: "Ada"})\<close>
  the store has no key \<^verbatim>\<open>route\<close>, and on the condition \<^verbatim>\<open>route==/a || name\<close>, whose
  second part \<^verbatim>\<open>name\<close> has its only condition true, the standalone build throws a
  TypeError where the UMD build returns true.
\<close>

theorem standalone_condition_throws_without_route:
  "data (world_of (State_reset Standalone sample_host [(''name'', JStr ''Ada'')] sample_world))
     = [(''name'', JStr ''Ada'')]
   \<and> split_op ''||'' ''route==/a || name'' = [''route==/a'', ''name'']
   \<and> split_op ''&&'' ''name'' = [''name'']
   \<and> fst (evaluateSingleCondition Standalone sample_host [(''name'', JStr ''Ada'')] ''name'') = Inr True
   \<and> fst (evaluateCondition Standalone sample_host [(''name'', JStr ''Ada'')] ''route==/a || name'')
       = Inl TypeError
   \<and> fst (evaluateCondition UMD sample_host [(''name'', JStr ''Ada'')] ''route==/a || name'')
       = Inr True"
  by code_simp

subsection \<open>Conditions: malformed comparisons\<close>

text \<open>
  C3, as the code has it. A condition that reaches the comparison parser and that the parser
  cannot split into key, operator and value, or whose \<^verbatim>\<open>matches\<close> pattern the host rejects
  as a regular expression, evaluates to false in both builds, without an exception. Only the
  standalone build writes to the console, and only for the rejected pattern.
\<close>

theorem malformed_comparison_is_false:
  assumes "reaches_comparison c"
    and "match_search c = None
         \<or> (\<exists>k v. match_search c = Some (k, ''matches'', v)
                  \<and> RegExp_test h (strip_slashes (trim v)) (obj_get d (trim k)) = None)"
  shows "evaluateSingleCondition b h d c
           = (Inr False,
              if b = Standalone \<and> match_search c \<noteq> None
              then [ConsoleError ''Invalid regex in class-if condition:''] else [])"
proof -
  have e: "evaluateSingleCondition b h d c =
        (case parseCondition c of
           (stateKey, operator, expectedValue) \<Rightarrow>
             (let stateValue = obj_get d (trim stateKey)
              in if operator = ''matches'' then
                   (case RegExp_test h (strip_slashes (trim expectedValue)) stateValue of
                      Some m \<Rightarrow> (Inr m, [])
                    | None \<Rightarrow>
                        (case b of
                           Standalone \<Rightarrow> (Inr False, [ConsoleError ''Invalid regex in class-if condition:''])
                         | UMD \<Rightarrow> (Inr False, [])))
                 else (Inr (compare_op h operator stateValue expectedValue), [])))"
    using assms(1) unfolding reaches_comparison_def evaluateSingleCondition_def by simp
  from assms(2) show ?thesis
  proof
    assume n: "match_search c = None"
    then show ?thesis
      by (simp add: e parseCondition_def compare_op_def)
  next
    assume "\<exists>k v. match_search c = Some (k, ''matches'', v)
                  \<and> RegExp_test h (strip_slashes (trim v)) (obj_get d (trim k)) = None"
    then obtain k v where m: "match_search c = Some (k, ''matches'', v)"
      and t: "RegExp_test h (strip_slashes (trim v)) (obj_get d (trim k)) = None" by blast
    show ?thesis
      unfolding e by (cases b) (simp_all add: parseCondition_def m t)
  qed
qed

theorem malformed_comparison_is_false_witness:
  "reaches_comparison ''a==''
   \<and> match_search ''a=='' = None
   \<and> evaluateSingleCondition UMD sample_host (data sample_world) ''a=='' = (Inr False, [])
   \<and> reaches_comparison ''name matches /(/''
   \<and> match_search ''name matches /(/'' = Some (''name'', ''matches'', ''/(/'')
   \<and> RegExp_test sample_host (strip_slashes (trim ''/(/'')) (obj_get (data sample_world) (trim ''name'')) = None
   \<and> evaluateSingleCondition Standalone sample_host (data sample_world) ''name matches /(/''
       = (Inr False, [ConsoleError ''Invalid regex in class-if condition:''])"
proof -
  have a: "reaches_comparison ''a==''" by code_simp
  have b: "match_search ''a=='' = None" by code_simp
  have c: "reaches_comparison ''name matches /(/''" by code_simp
  have d: "match_search ''name matches /(/'' = Some (''name'', ''matches'', ''/(/'')" by code_simp
  have e: "RegExp_test sample_host (strip_slashes (trim ''/(/'')) (obj_get (data sample_world) (trim ''name'')) = None"
    by code_simp
  have d': "match_search ''name matches /(/'' = None
         \<or> (\<exists>k v. match_search ''name matches /(/'' = Some (k, ''matches'', v)
                  \<and> RegExp_test sample_host (strip_slashes (trim v)) (obj_get (data sample_world) (trim k)) = None)"
    using d e by simp
  have b': "match_search ''a=='' = None
         \<or> (\<exists>k v. match_search ''a=='' = Some (k, ''matches'', v)
                  \<and> RegExp_test sample_host (strip_slashes (trim v)) (obj_get (data sample_world) (trim k)) = None)"
    using b by simp
  show ?thesis
    using a b c d e
      malformed_comparison_is_false [OF a b', of UMD]
      malformed_comparison_is_false [OF c d', of Standalone]
    by simp
qed

text \<open>
  C3 as stated fails twice. A comparison that cannot be parsed is not logged by either build,
  nor is a rejected pattern by the UMD build; and an unparseable comparison that starts with
  \<^verbatim>\<open>!\<close> never reaches the parser: it is read as the negation of a key, which is true when
  the store has no such key.
\<close>

theorem malformed_conditions_unlogged_or_true:
  "match_search ''a=='' = None
   \<and> evaluateSingleCondition Standalone sample_host (data sample_world) ''a=='' = (Inr False, [])
   \<and> evaluateCondition Standalone sample_host (data sample_world) ''a=='' = (Inr False, [])
   \<and> evaluateSingleCondition UMD sample_host (data sample_world) ''name matches /(/'' = (Inr False, [])
   \<and> match_search ''!= 5'' = None
   \<and> evaluateSingleCondition Standalone sample_host (data sample_world) ''!= 5'' = (Inr True, [])
   \<and> evaluateCondition UMD sample_host (data sample_world) ''!= 5'' = (Inr True, [])"
  by code_simp

subsection \<open>Two-way binding of form fields\<close>















lemma write_data_script_done: "script_done (world_of (write_data b h key v w)) = script_done w"
proof (cases "strict_equals (obj_get (data w) key) v")
  case True
  then show ?thesis by (simp add: write_data_unchanged)
next
  case False
  let ?w0 = "w\<lparr>data := obj_put (data w) key v\<rparr>"
  have "script_done (world_of (updateLocalStorage b h key v ?w0)) = script_done (snd (store_state h ?w0))"
    using rebound_updateLocalStorage [of h ?w0 b key v] by (simp add: rebound_def)
  then show ?thesis using store_state_keeps [of h ?w0] by (simp add: write_data_changed [OF False])
qed



lemma on_change_unfold:
  assumes "getAttribute (doc w ! i) ''data-bind'' = Some key" and "key \<noteq> []"
  shows "on_change b h i w =
     and_then (write_data b h key (target_value (doc w ! i)) w)
       (\<lambda>_ w1. and_then (updateDOM b h key (target_value (doc w ! i)) w1)
                  (\<lambda>_ w2. and_then (updateVisibility b h w2) (\<lambda>_. updateClasses b h)))"
  using assms by (simp add: on_change_def Let_def)






subsection \<open>One storage key\<close>

lemma confined_refl: "confined w w"
  by (simp add: confined_def)

lemma confined_trans: "confined a b \<Longrightarrow> confined b c \<Longrightarrow> confined a c"
  unfolding confined_def
proof (elim conjE exE, intro conjI)
  fix es es'
  assume "trace b = trace a @ es" "list_all state_key_only es"
    "trace c = trace b @ es'" "list_all state_key_only es'"
  then have "trace c = trace a @ (es @ es') \<and> list_all state_key_only (es @ es')" by simp
  then show "\<exists>es. trace c = trace a @ es \<and> list_all state_key_only es" by blast
next
  assume "\<forall>k. k \<noteq> ''state'' \<longrightarrow> getItem (storage b) k = getItem (storage a) k"
    "\<forall>k. k \<noteq> ''state'' \<longrightarrow> getItem (storage c) k = getItem (storage b) k"
  then show "\<forall>k. k \<noteq> ''state'' \<longrightarrow> getItem (storage c) k = getItem (storage a) k" by simp
qed

lemma no_storage_is_state_key: "list_all no_storage_effect es \<Longrightarrow> list_all state_key_only es"
  by (induction es) (auto simp: no_storage_effect_def state_key_only_def split: effect.splits)

lemma refreshed_confined: "refreshed w w' \<Longrightarrow> confined w w'"
  using no_storage_is_state_key by (auto simp: refreshed_def confined_def)

lemma confined_same:
  "storage w' = storage w \<Longrightarrow> trace w' = trace w \<Longrightarrow> confined w w'"
  by (simp add: confined_def)

lemma confined_emit: "list_all state_key_only es \<Longrightarrow> confined w (emit es w)"
  by (simp add: confined_def emit_def)

lemma confined_then:
  assumes "confined w (world_of m)" and "\<And>a w'. confined w' (world_of (f a w'))"
  shows "confined w (world_of (and_then m f))"
  using assms(1) assms(2) confined_trans by (rule and_then_rel)

lemma confined_for_each:
  assumes "\<And>x w'. confined w' (world_of (f x w'))"
  shows "confined w (world_of (for_each f xs w))"
  using assms confined_refl confined_trans by (rule for_each_rel)

lemma rebound_confined: "rebound w w' \<Longrightarrow> confined w w'"
  using no_storage_is_state_key by (auto simp: rebound_def confined_def)

lemma confined_updateDOM: "confined w (world_of (updateDOM b h key v w))"
  by (rule rebound_confined [OF rebound_updateDOM])

lemma confined_store_state: "confined w (snd (store_state h w))"
  using store_state_cases [of h w]
  by (auto simp: confined_def emit_def state_key_only_def getItem_setItem)

lemma confined_updateLocalStorage: "confined w (world_of (updateLocalStorage b h key v w))"
  by (rule confined_trans [OF confined_store_state rebound_confined [OF rebound_updateLocalStorage]])

lemma confined_write_data: "confined w (world_of (write_data b h key v w))"
proof (cases "strict_equals (obj_get (data w) key) v")
  case True
  then show ?thesis by (simp add: write_data_unchanged confined_refl)
next
  case False
  have "confined w (w\<lparr>data := obj_put (data w) key v\<rparr>)" by (simp add: confined_same)
  from confined_trans [OF this confined_updateLocalStorage]
  show ?thesis using False by (simp add: write_data_changed)
qed

lemma confined_invoke: "confined w (world_of (invoke h f args w))"
  by (rule refreshed_confined [OF refreshed_invoke])

lemma confined_notify: "confined w (world_of (notify h key v w))"
proof (cases "map_of (subscribers w) key")
  case None
  then show ?thesis by (simp add: notify_def confined_refl)
next
  case (Some callbacks)
  have "confined w' (world_of (and_then (invoke h f [v] w') (\<lambda>_. Returns ())))" for f w'
    by (rule confined_then [OF confined_invoke]) (simp add: confined_refl)
  then show ?thesis using Some by (simp add: notify_def confined_for_each)
qed

lemma confined_set_entry: "confined w (world_of (set_entry b h entry w))"
  unfolding set_entry_def
  by (rule confined_then [OF confined_write_data confined_notify])

lemma confined_State_set: "confined w (world_of (State_set b h properties w))"
  unfolding State_set_def
proof (rule confined_then)
  show "confined w (world_of (for_each (set_entry b h) properties w))"
    by (rule confined_for_each [OF confined_set_entry])
next
  fix a w'
  show "confined w' (world_of (Returns ()
          (emit [RequestFrame T_updateVisibility, RequestFrame T_updateClasses] w')))"
    by (simp add: confined_emit state_key_only_def)
qed

lemma confined_State_subscribe: "confined w (world_of (State_subscribe h key f w))"
proof (cases "map_of (subscribers w) key = None \<and> map_of object_prototype key \<noteq> None")
  case True
  then show ?thesis by (simp add: State_subscribe_def confined_refl)
next
  case False
  let ?w1 = "w\<lparr>subscribers := AList.update key
          ((case map_of (subscribers w) key of None \<Rightarrow> [] | Some cs \<Rightarrow> cs) @ [f]) (subscribers w)\<rparr>"
  have a: "confined w ?w1" by (simp add: confined_same)
  have b: "confined ?w1 (world_of (and_then (invoke h f [obj_get (data ?w1) key] ?w1) (\<lambda>_. Returns ())))"
    by (rule confined_then [OF confined_invoke]) (simp add: confined_refl)
  have eq: "State_subscribe h key f w
          = (if map_of (subscribers w) key = None \<and> map_of object_prototype key \<noteq> None
             then Throws TypeError w
             else and_then (invoke h f [obj_get (data ?w1) key] ?w1) (\<lambda>_. Returns ()))"
    unfolding State_subscribe_def Let_def by (rule refl)
  show ?thesis
    unfolding eq if_not_P [OF False] by (rule confined_trans [OF a b])
qed

lemma confined_Returns: "confined w w' \<Longrightarrow> confined w (world_of (Returns a w'))"
  by simp

lemma confined_update_element: "confined w (update_element i f w)"
  by (simp add: confined_same update_element_def)

lemma confined_navigate: "confined w (world_of (navigate b h path options replace w))"
proof (cases "strict_equals (JStr (full_path path)) (State_get w ''route'')")
  case True
  then show ?thesis by (simp add: navigate_def Let_def confined_refl)
next
  case False
  let ?props = "foldl (\<lambda>obj entry. obj_define obj (fst entry) (snd entry))
                  [(''route'', JStr (full_path path))]
                  (case options of NavState obj \<Rightarrow> obj | _ \<Rightarrow> [])"
  let ?rep = "(case options of NavState obj \<Rightarrow> replace | NavReplace r \<Rightarrow> r | NavOther \<Rightarrow> False)"
  let ?es = "(if path_hash path = [] then [ScrollTo 0 0] else [])
             @ [if ?rep then ReplaceState (full_path path) else PushState (full_path path)]"
  have eq: "navigate b h path options replace w =
      and_then (State_set b h ?props w)
        (\<lambda>_ w1. case history_url h (location w1) (full_path path) of
                    Some url \<Rightarrow> Returns () ((emit ?es w1)\<lparr>location := url\<rparr>)
                  | None \<Rightarrow> (case b of
                               Standalone \<Rightarrow> Throws SecurityError (emit ?es w1)
                             | UMD \<Rightarrow> Returns () (emit ?es w1)))"
    using False by (simp add: navigate_def Let_def)
  show ?thesis
    unfolding eq
  proof (rule confined_then [OF confined_State_set])
    fix a w'
    have "list_all state_key_only ?es" by (simp add: state_key_only_def)
    then have e: "confined w' (emit ?es w')" by (rule confined_emit)
    have l: "confined w' ((emit ?es w')\<lparr>location := url\<rparr>)" for url
      using e by (simp add: confined_def)
    show "confined w' (world_of (case history_url h (location w') (full_path path) of
                    Some url \<Rightarrow> Returns () ((emit ?es w')\<lparr>location := url\<rparr>)
                  | None \<Rightarrow> (case b of
                               Standalone \<Rightarrow> Throws SecurityError (emit ?es w')
                             | UMD \<Rightarrow> Returns () (emit ?es w'))))"
      using e l by (cases "history_url h (location w') (full_path path)"; cases b) simp_all
  qed
qed

lemma confined_on_popstate: "confined w (world_of (on_popstate b h p w))"
  by (simp add: on_popstate_def confined_navigate)

lemma confined_on_hashchange: "confined w (world_of (on_hashchange b h w))"
  by (simp add: on_hashchange_def confined_State_set confined_refl)

lemma confined_on_DOMContentLoaded: "confined w (world_of (on_DOMContentLoaded b h w))"
  unfolding on_DOMContentLoaded_def Let_def
  by (simp add: confined_navigate confined_refl split: jsval.split build.split)

lemma confined_validate_field:
  assumes "confined w (snd acc)"
  shows "confined w (snd (validate_field b h acc i))"
proof -
  obtain allValid states w1 where acc: "acc = ((allValid, states), w1)"
    by (cases acc) auto
  have w1: "confined w w1" using assms acc by simp
  have step: "confined w1 (snd (validate_field b h ((allValid, states), w1) i))"
    unfolding validate_field_def Let_def
    by (simp add: confined_refl confined_def emit_def update_element_def state_key_only_def
        split: jsval.split option.split build.split)
  show ?thesis using confined_trans [OF w1 step] acc by simp
qed

lemma confined_validate_fold:
  "confined w (snd acc) \<Longrightarrow> confined w (snd (foldl (validate_field b h) acc fs))"
  by (induction fs arbitrary: acc) (simp_all add: confined_validate_field)

lemma confined_validate: "confined w (world_of (validate b h g w))"
proof (cases "validate_fields h (doc w) g")
  case (Inl e)
  then show ?thesis by (simp add: validate_def confined_refl)
next
  case (Inr fs)
  obtain allValid states w1
    where f: "foldl (validate_field b h) ((True, []), w) fs = ((allValid, states), w1)"
    by (cases "foldl (validate_field b h) ((True, []), w) fs") auto
  have w1: "confined w w1"
    using confined_validate_fold [of w "((True, []), w)" b h fs] f
    by (simp add: confined_refl)
  have rest: "confined w1 (world_of (and_then (State_set b h states w1)
            (\<lambda>_ w2. and_then
               (State_set b h [(g @ ''_valid'', JBool allValid), (g @ ''_invalid'', JBool (\<not> allValid))] w2)
               (\<lambda>_. Returns allValid))))"
  proof (rule confined_then [OF confined_State_set])
    fix a w'
    show "confined w' (world_of (and_then
               (State_set b h [(g @ ''_valid'', JBool allValid), (g @ ''_invalid'', JBool (\<not> allValid))] w')
               (\<lambda>_. Returns allValid)))"
      by (rule confined_then [OF confined_State_set]) (simp add: confined_refl)
  qed
  show ?thesis using confined_trans [OF w1 rest] f Inr by (simp add: validate_def)
qed

lemma confined_reset_field:
  assumes "confined w (snd acc)"
  shows "confined w (snd (reset_field acc i))"
proof -
  obtain states w1 where acc: "acc = (states, w1)" by (cases acc)
  have w1: "confined w w1" using assms acc by simp
  have step: "confined w1 (snd (reset_field (states, w1) i))"
    unfolding reset_field_def
    by (simp add: confined_refl confined_update_element split: option.split)
  show ?thesis using confined_trans [OF w1 step] acc by simp
qed

lemma confined_reset_fold:
  "confined w (snd acc) \<Longrightarrow> confined w (snd (foldl reset_field acc fs))"
  by (induction fs arbitrary: acc) (simp_all add: confined_reset_field)

lemma confined_resetValidation: "confined w (world_of (resetValidation b h g w))"
proof (cases "group_fields h (doc w) g")
  case (Inl e)
  then show ?thesis by (simp add: resetValidation_def confined_refl)
next
  case (Inr fs)
  obtain states w1
    where f: "foldl reset_field ([], w) fs = (states, w1)"
    by (cases "foldl reset_field ([], w) fs")
  have w1: "confined w w1"
    using confined_reset_fold [of w "([], w)" fs] f
    by (simp add: confined_refl)
  have rest: "confined w1 (world_of (and_then (State_set b h states w1)
            (\<lambda>_. State_set b h [(g @ ''_valid'', JUndefined), (g @ ''_invalid'', JUndefined)])))"
    by (rule confined_then [OF confined_State_set confined_State_set])
  show ?thesis using confined_trans [OF w1 rest] f Inr by (simp add: resetValidation_def)
qed

lemma confined_reset_element: "confined w (world_of (reset_element h initialState i w))"
  unfolding reset_element_def Let_def
proof (rule confined_then)
  let ?el = "doc w ! i"
  let ?bindKey = "(case getAttribute ?el ''data-bind'' of Some k \<Rightarrow> k | None \<Rightarrow> [])"
  let ?v = "obj_get initialState ?bindKey"
  show "confined w (world_of
          (if ?bindKey = [] then Returns () w
            else if tagName ?el = ''INPUT'' then
              (if el_type ?el = ''checkbox'' \<or> el_type ?el = ''radio''
               then Returns () (assign_checked i (truthy ?v) w)
               else assign_field h i (to_string h (or_empty ?v)) w)
            else if tagName ?el = ''TEXTAREA'' \<or> tagName ?el = ''SELECT''
              then assign_field h i (to_string h (or_empty ?v)) w
            else Returns () (set_textContent i (to_string h (or_empty ?v)) w)))"
    by (simp add: confined_refl rebound_confined [OF rebound_assign_checked]
        rebound_confined [OF rebound_assign_field] rebound_confined [OF rebound_set_textContent])
next
  fix a w1
  let ?showAttr = "(case getAttribute (doc w ! i) ''show-if'' of Some k \<Rightarrow> k | None \<Rightarrow> [])"
  let ?classAttr = "(case getAttribute (doc w ! i) ''class-if'' of Some k \<Rightarrow> k | None \<Rightarrow> [])"
  have one: "confined w1 (world_of
          (case (if ?showAttr = [] then JUndefined else obj_get (data w1) ?showAttr) of
              JFun f \<Rightarrow> and_then (invoke h f [] w1)
                          (\<lambda>r w2. Returns () (update_element i
                             (\<lambda>e. e\<lparr>style_display := (if truthy r then [] else ''none'')\<rparr>) w2))
            | _ \<Rightarrow> Returns () w1))"
  proof (cases "(if ?showAttr = [] then JUndefined else obj_get (data w1) ?showAttr)")
    case (JFun f)
    have "confined w1 (world_of (and_then (invoke h f [] w1)
                          (\<lambda>r w2. Returns () (update_element i
                             (\<lambda>e. e\<lparr>style_display := (if truthy r then [] else ''none'')\<rparr>) w2))))"
      by (rule confined_then [OF confined_invoke]) (simp add: confined_update_element)
    then show ?thesis by (simp only: JFun jsval.case)
  qed (simp_all only: jsval.case world_of.simps confined_refl)
  have two: "confined w3 (world_of
          (case (if ?classAttr = [] then JUndefined else obj_get (data w3) ?classAttr) of
                 JFun f \<Rightarrow> and_then (invoke h f [] w3)
                             (\<lambda>r w4. Returns () (update_element i
                                (\<lambda>e. e\<lparr>classList := class_tokens (to_string h (or_empty r))\<rparr>) w4))
               | _ \<Rightarrow> Returns () w3))" for w3
  proof (cases "(if ?classAttr = [] then JUndefined else obj_get (data w3) ?classAttr)")
    case (JFun f)
    have "confined w3 (world_of (and_then (invoke h f [] w3)
                             (\<lambda>r w4. Returns () (update_element i
                                (\<lambda>e. e\<lparr>classList := class_tokens (to_string h (or_empty r))\<rparr>) w4))))"
      by (rule confined_then [OF confined_invoke]) (simp add: confined_update_element)
    then show ?thesis by (simp only: JFun jsval.case)
  qed (simp_all only: jsval.case world_of.simps confined_refl)
  show "confined w1 (world_of (and_then
          (case (if ?showAttr = [] then JUndefined else obj_get (data w1) ?showAttr) of
              JFun f \<Rightarrow> and_then (invoke h f [] w1)
                          (\<lambda>r w2. Returns () (update_element i
                             (\<lambda>e. e\<lparr>style_display := (if truthy r then [] else ''none'')\<rparr>) w2))
            | _ \<Rightarrow> Returns () w1)
          (\<lambda>_ w3.
              (case (if ?classAttr = [] then JUndefined else obj_get (data w3) ?classAttr) of
                 JFun f \<Rightarrow> and_then (invoke h f [] w3)
                             (\<lambda>r w4. Returns () (update_element i
                                (\<lambda>e. e\<lparr>classList := class_tokens (to_string h (or_empty r))\<rparr>) w4))
               | _ \<Rightarrow> Returns () w3))))"
    by (rule confined_then [OF one two])
qed

lemma confined_State_reset: "confined w (world_of (State_reset b h initialState w))"
  unfolding State_reset_def
proof (rule confined_then)
  have a: "confined w (w\<lparr>data := [], subscribers := []\<rparr>)" by (simp add: confined_same)
  have b: "confined (w\<lparr>data := [], subscribers := []\<rparr>)
             (world_of (for_each (\<lambda>entry. write_data b h (fst entry) (snd entry)) initialState
                (w\<lparr>data := [], subscribers := []\<rparr>)))"
    by (rule confined_for_each [OF confined_write_data])
  show "confined w (world_of (for_each (\<lambda>entry. write_data b h (fst entry) (snd entry)) initialState
          (w\<lparr>data := [], subscribers := []\<rparr>)))"
    by (rule confined_trans [OF a b])
next
  fix a w'
  show "confined w' (world_of (for_each (reset_element h initialState)
                  (select_all (doc w')
                     (\<lambda>i. has_attribute (doc w') ''data-bind'' i \<or> has_attribute (doc w') ''show-if'' i
                           \<or> has_attribute (doc w') ''class-if'' i)) w'))"
    by (rule confined_for_each [OF confined_reset_element])
qed

lemma confined_checkForExistingPrompt: "confined w (world_of (checkForExistingPrompt b h w))"
proof (cases "truthy (deferredPrompt w)")
  case True
  have "confined w (world_of (and_then (write_data b h ''pwaInstallPrompt'' (deferredPrompt w) w)
             (\<lambda>_. write_data b h ''showInstallButton'' (JBool True))))"
    by (rule confined_then [OF confined_write_data confined_write_data])
  then show ?thesis using True by (simp add: checkForExistingPrompt_def)
next
  case False
  then show ?thesis by (simp add: checkForExistingPrompt_def confined_refl)
qed

lemma confined_initPWA: "confined w (world_of (initPWA b h w))"
proof (cases b)
  case Standalone
  show ?thesis
  proof (cases "displayStandalone h")
    case True
    then show ?thesis using Standalone by (simp add: initPWA_def confined_write_data)
  next
    case False
    let ?w1 = "emit ((if serviceWorker h then [RegisterServiceWorker] else [])
                     @ [AddListener ''beforeinstallprompt'', AddListener ''appinstalled'']) w"
    have a: "confined w ?w1" by (simp add: confined_emit state_key_only_def)
    have t: "confined ?w1 (world_of
               (and_then (write_data Standalone h ''pwaInstallPrompt'' (deferredPrompt ?w1) ?w1)
                       (\<lambda>_. write_data Standalone h ''showInstallButton'' (JBool True))))"
      by (rule confined_then [OF confined_write_data confined_write_data])
    have b: "confined ?w1 (world_of
               (if truthy (deferredPrompt ?w1)
                then and_then (write_data Standalone h ''pwaInstallPrompt'' (deferredPrompt ?w1) ?w1)
                       (\<lambda>_. write_data Standalone h ''showInstallButton'' (JBool True))
                else Returns () ?w1))"
    proof (cases "truthy (deferredPrompt ?w1)")
      case True
      then show ?thesis using t by (simp only: if_True)
    next
      case False
      then show ?thesis by (simp only: if_False world_of.simps confined_refl)
    qed
    show ?thesis
      using confined_trans [OF a b] False Standalone by (simp add: initPWA_def Let_def)
  qed
next
  case UMD
  show ?thesis
  proof (cases "enablePWA h")
    case False
    then show ?thesis using UMD by (simp add: initPWA_def confined_refl)
  next
    case True
    have "confined w (world_of (and_then
                  (if displayStandalone h
                   then write_data UMD h ''showInstallButton'' (JBool False) w
                   else Returns () w)
                  (\<lambda>_ w1. Returns ()
                     (emit ([AddListener ''beforeinstallprompt'', AddListener ''appinstalled'']
                            @ (if serviceWorker h then [AddListener ''load''] else [])) w1))))"
    proof (rule confined_then)
      show "confined w (world_of (if displayStandalone h
                   then write_data UMD h ''showInstallButton'' (JBool False) w
                   else Returns () w))"
        by (simp add: confined_write_data confined_refl)
    next
      fix a w'
      show "confined w' (world_of (Returns ()
                     (emit ([AddListener ''beforeinstallprompt'', AddListener ''appinstalled'']
                            @ (if serviceWorker h then [AddListener ''load''] else [])) w')))"
        by (simp add: confined_emit state_key_only_def)
    qed
    then show ?thesis using True UMD by (simp add: initPWA_def)
  qed
qed

lemma confined_construct: "confined w (world_of (construct b h w))"
proof (cases "has_instance w")
  case True
  then show ?thesis by (simp add: construct_def confined_refl)
next
  case False
  let ?w1 = "emit [StorageGet ''state''] w"
  have a: "confined w ?w1" by (simp add: confined_emit state_key_only_def)
  show ?thesis
  proof (cases "stored_data b h (getItem (storage w) ''state'')")
    case (Inl e)
    then show ?thesis using False a by (simp add: construct_def Let_def)
  next
    case (Inr storedData)
    let ?initial = "obj_put (obj_put storedData ''pwaInstallPrompt'' JNull) ''showInstallButton'' (JBool False)"
    let ?w2 = "emit [AddListener ''change'']
                 (?w1\<lparr>data := ?initial, subscribers := [], has_instance := True,
                      script_done := False\<rparr>)"
    have b: "confined ?w1 ?w2"
      by (simp add: confined_def emit_def state_key_only_def)
    have c: "confined ?w2 (world_of
        (and_then (write_data b h ''route'' (JStr (location ?w2)) ?w2)
           (\<lambda>_ w3. and_then (initPWA b h w3)
              (\<lambda>_ w4. Returns ()
                 (emit [RequestFrame T_initialRender]
                    (case b of Standalone \<Rightarrow> trackUserEngagement w4 | UMD \<Rightarrow> w4))))))"
    proof (rule confined_then [OF confined_write_data])
      fix a w3
      show "confined w3 (world_of (and_then (initPWA b h w3)
              (\<lambda>_ w4. Returns ()
                 (emit [RequestFrame T_initialRender]
                    (case b of Standalone \<Rightarrow> trackUserEngagement w4 | UMD \<Rightarrow> w4)))))"
      proof (rule confined_then [OF confined_initPWA])
        fix a w4
        show "confined w4 (world_of (Returns ()
                 (emit [RequestFrame T_initialRender]
                    (case b of Standalone \<Rightarrow> trackUserEngagement w4 | UMD \<Rightarrow> w4))))"
          by (cases b) (simp_all add: confined_def emit_def trackUserEngagement_def state_key_only_def)
      qed
    qed
    have "confined w (world_of
        (and_then (write_data b h ''route'' (JStr (location ?w2)) ?w2)
           (\<lambda>_ w3. and_then (initPWA b h w3)
              (\<lambda>_ w4. Returns ()
                 (emit [RequestFrame T_initialRender]
                    (case b of Standalone \<Rightarrow> trackUserEngagement w4 | UMD \<Rightarrow> w4))))))"
      by (rule confined_trans [OF a confined_trans [OF b c]])
    then show ?thesis using False Inr a by (simp add: construct_def Let_def)
  qed
qed

lemma confined_load_script: "confined w (world_of (load_script b h w))"
  unfolding load_script_def
  by (rule confined_then [OF confined_construct]) (simp add: confined_same)

lemma confined_on_change: "confined w (world_of (on_change b h i w))"
proof (cases "getAttribute (doc w ! i) ''data-bind''")
  case None
  then show ?thesis by (simp add: on_change_def confined_refl)
next
  case (Some key)
  show ?thesis
  proof (cases "key = []")
    case True
    then show ?thesis using Some by (simp add: on_change_def confined_refl)
  next
    case False
    have "confined w (world_of (and_then (write_data b h key (target_value (doc w ! i)) w)
       (\<lambda>_ w1. and_then (updateDOM b h key (target_value (doc w ! i)) w1)
                  (\<lambda>_ w2. and_then (updateVisibility b h w2) (\<lambda>_. updateClasses b h)))))"
      by (rule confined_then [OF confined_write_data rebound_confined [OF rebound_render]])
    then show ?thesis by (simp add: on_change_unfold [OF Some False])
  qed
qed

lemma confined_on_beforeinstallprompt: "confined w (world_of (on_beforeinstallprompt b h e w))"
  unfolding on_beforeinstallprompt_def
proof (rule confined_then [OF confined_write_data])
  fix a w1
  show "confined w1 (world_of (and_then (write_data b h ''showInstallButton'' (JBool True) w1)
          (\<lambda>_ w2. Returns () (case b of Standalone \<Rightarrow> w2\<lparr>deferredPrompt := e\<rparr> | UMD \<Rightarrow> w2))))"
  proof (rule confined_then [OF confined_write_data])
    fix a w2
    show "confined w2 (world_of (Returns () (case b of Standalone \<Rightarrow> w2\<lparr>deferredPrompt := e\<rparr> | UMD \<Rightarrow> w2)))"
      by (cases b) (simp_all add: confined_same)
  qed
qed

lemma confined_on_appinstalled: "confined w (world_of (on_appinstalled b h w))"
  unfolding on_appinstalled_def
  by (rule confined_then [OF confined_write_data confined_write_data])

lemma confined_trackInteraction: "confined w (world_of (trackInteraction b h w))"
  unfolding trackInteraction_def Let_def
proof (rule confined_trans [where b = "w\<lparr>interactionCount := Suc (interactionCount w)\<rparr>"])
  show "confined w (w\<lparr>interactionCount := Suc (interactionCount w)\<rparr>)"
    by (simp add: confined_same)
next
  let ?w0 = "w\<lparr>interactionCount := Suc (interactionCount w)\<rparr>"
  show "confined ?w0 (world_of
     (and_then (write_data b h ''userInteractions'' (JNum (Finite (of_nat (Suc (interactionCount w))))) ?w0)
           (\<lambda>_ w1. if 2 \<le> Suc (interactionCount w) \<and> \<not> truthy (State_get w1 ''pwaInstallPrompt'')
                        \<and> truthy (deferredPrompt w1)
                    then checkForExistingPrompt b h w1
                    else Returns () w1)))"
    by (rule confined_then [OF confined_write_data])
       (simp add: confined_checkForExistingPrompt confined_refl)
qed

lemma confined_run_frame: "confined w (world_of (run_frame b h t w))"
proof (cases t)
  case T_updateVisibility
  then show ?thesis by (simp add: run_frame_def refreshed_confined [OF refreshed_updateVisibility])
next
  case T_updateClasses
  then show ?thesis by (simp add: run_frame_def refreshed_confined [OF refreshed_updateClasses])
next
  case T_trackOnShowElements
  then show ?thesis
    by (simp add: run_frame_def trackOnShowElements_def Let_def confined_def emit_def
        list_all_iff state_key_only_def)
next
  case T_initialRender
  have "confined w (world_of (and_then
            (for_each (\<lambda>key w'. updateDOM b h key (obj_get (data w') key) w')
               (map fst (data w)) w)
            (\<lambda>_ w1. and_then (updateVisibility b h w1) (\<lambda>_. updateClasses b h))))"
  proof (rule confined_then)
    show "confined w (world_of (for_each (\<lambda>key w'. updateDOM b h key (obj_get (data w') key) w')
               (map fst (data w)) w))"
      by (rule confined_for_each) (rule confined_updateDOM)
  next
    fix a w1
    show "confined w1 (world_of (and_then (updateVisibility b h w1) (\<lambda>_. updateClasses b h)))"
      by (rule confined_then [OF refreshed_confined [OF refreshed_updateVisibility]
                                 refreshed_confined [OF refreshed_updateClasses]])
  qed
  then show ?thesis using T_initialRender by (simp add: run_frame_def)
qed

lemma confined_call: "confined w (world_of m) \<Longrightarrow> confined w (world_of (call w m))"
  by (simp add: call_def confined_refl)

lemma confined_listener: "confined w (world_of m) \<Longrightarrow> confined w (world_of (listener c w m))"
  by (simp add: listener_def confined_refl)

lemma confined_run: "confined w (world_of (run b h op w))"
proof (cases op)
  case (Op_validate g)
  have "confined w (world_of (and_then (validate b h g w) (\<lambda>_. Returns ())))"
    by (rule confined_then [OF confined_validate]) (simp add: confined_refl)
  then show ?thesis using Op_validate by (simp add: run_def confined_call)
qed (simp_all add: run_def confined_call confined_listener
      confined_load_script confined_State_set confined_State_subscribe
      confined_State_reset confined_navigate confined_resetValidation confined_write_data
      confined_on_change confined_on_popstate confined_on_hashchange confined_on_DOMContentLoaded
      confined_on_beforeinstallprompt confined_on_appinstalled confined_trackInteraction
      confined_run_frame)

lemma confined_run_all: "confined w (run_all b h ops w)"
proof (induction ops arbitrary: w)
  case Nil
  show ?case by (simp add: run_all_def confined_refl)
next
  case (Cons op ops)
  have s: "run_all b h (op # ops) w = run_all b h ops (world_of (run b h op w))"
    by (simp add: run_all_def)
  have x: "confined w (world_of (run b h op w))" by (rule confined_run)
  have y: "confined (world_of (run b h op w)) (run_all b h ops (world_of (run b h op w)))"
    by (rule Cons.IH)
  show ?case unfolding s by (rule confined_trans [OF x y])
qed

text \<open>
  C7. Throughout any session, every operation of the library stays within one storage key:
  every item of the storage under a key other than \<^verbatim>\<open>"state"\<close> is as it was, and every
  read and every write of the storage that the session has added to the trace uses the key
  \<^verbatim>\<open>"state"\<close>.
\<close>

theorem only_the_state_key:
  "(\<forall>k. k \<noteq> ''state'' \<longrightarrow> getItem (storage (run_all b h ops w)) k = getItem (storage w) k)
   \<and> (\<exists>es. trace (run_all b h ops w) = trace w @ es
          \<and> (\<forall>e \<in> set es. \<forall>k t. e = StorageGet k \<or> e = StorageSet k t \<longrightarrow> k = ''state''))"
proof -
  have c: "confined w (run_all b h ops w)" by (rule confined_run_all)
  then obtain es where es: "trace (run_all b h ops w) = trace w @ es" "list_all state_key_only es"
    by (auto simp: confined_def)
  have "\<forall>e \<in> set es. \<forall>k t. e = StorageGet k \<or> e = StorageSet k t \<longrightarrow> k = ''state''"
    using es(2) by (auto simp: list_all_iff state_key_only_def)
  then have t: "\<exists>es. trace (run_all b h ops w) = trace w @ es
          \<and> (\<forall>e \<in> set es. \<forall>k t. e = StorageGet k \<or> e = StorageSet k t \<longrightarrow> k = ''state'')"
    using es(1) by blast
  have s: "\<forall>k. k \<noteq> ''state'' \<longrightarrow> getItem (storage (run_all b h ops w)) k = getItem (storage w) k"
    using c by (simp add: confined_def)
  show ?thesis using s t by (rule conjI)
qed

theorem only_the_state_key_witness:
  "''theme'' \<noteq> ''state''
   \<and> getItem (storage themed_world) ''theme'' = Some ''dark''
   \<and> getItem (storage (run_all UMD sample_host
          [Op_construct, Op_set [(''name'', JStr ''Bob'')],
           Op_navigate ''/about'' (NavReplace False) False, Op_validate ''signup''] themed_world))
        ''theme'' = Some ''dark''"
proof -
  have a: "''theme'' \<noteq> ''state''" by simp
  have b: "getItem (storage themed_world) ''theme'' = Some ''dark''"
    by (simp add: themed_world_def sample_world_def getItem_def)
  have "getItem (storage (run_all UMD sample_host
          [Op_construct, Op_set [(''name'', JStr ''Bob'')],
           Op_navigate ''/about'' (NavReplace False) False, Op_validate ''signup''] themed_world))
        ''theme'' = getItem (storage themed_world) ''theme''"
  proof -
    note t = only_the_state_key [of UMD sample_host
          "[Op_construct, Op_set [(''name'', JStr ''Bob'')],
           Op_navigate ''/about'' (NavReplace False) False, Op_validate ''signup'']" themed_world]
    from t have "\<forall>k. k \<noteq> ''state'' \<longrightarrow> getItem (storage (run_all UMD sample_host
          [Op_construct, Op_set [(''name'', JStr ''Bob'')],
           Op_navigate ''/about'' (NavReplace False) False, Op_validate ''signup''] themed_world)) k
        = getItem (storage themed_world) k"
      by (rule conjunct1)
    then have "''theme'' \<noteq> ''state'' \<longrightarrow> getItem (storage (run_all UMD sample_host
          [Op_construct, Op_set [(''name'', JStr ''Bob'')],
           Op_navigate ''/about'' (NavReplace False) False, Op_validate ''signup''] themed_world)) ''theme''
        = getItem (storage themed_world) ''theme''"
      by (rule spec)
    then show ?thesis using a by (rule mp)
  qed
  then show ?thesis using a b by (simp only: simp_thms)
qed

end
